theory Spec2Isabelle
  imports Complex_Main "HOL-Library.Sublist"
begin

section \<open>Python strings\<close>

text \<open>
  A Python \<^verbatim>\<open>str\<close> is modelled as a \<^typ>\<open>string\<close>: a list of characters, one
  \<^typ>\<open>char\<close> per code point, which covers the code points 0 to 255. \<^verbatim>\<open>len\<close> is
  \<^const>\<open>length\<close>, slicing is \<^const>\<open>take\<close> and \<^const>\<open>drop\<close>, and the methods the
  sources call are given below with the behaviour of CPython.
\<close>

text \<open>\<^verbatim>\<open>str.isspace\<close> on one code point below 256: the characters removed by
  \<^verbatim>\<open>strip()\<close> and separating the tokens of \<^verbatim>\<open>split()\<close>.\<close>

definition py_isspace :: "char \<Rightarrow> bool" where
  "py_isspace c =
     (of_char c \<in> {9, 10, 11, 12, 13, 28, 29, 30, 31, 32, 133, 160 :: nat})"

text \<open>\<^verbatim>\<open>s.strip()\<close>\<close>

definition py_strip :: "string \<Rightarrow> string" where
  "py_strip s = rev (dropWhile py_isspace (rev (dropWhile py_isspace s)))"

text \<open>\<^verbatim>\<open>s.strip(chars)\<close>\<close>

definition py_strip_chars :: "string \<Rightarrow> string \<Rightarrow> string" where
  "py_strip_chars chars s =
     rev (dropWhile (\<lambda>c. c \<in> set chars) (rev (dropWhile (\<lambda>c. c \<in> set chars) s)))"

text \<open>\<^verbatim>\<open>s.startswith(p)\<close> and \<^verbatim>\<open>s.endswith(p)\<close>\<close>

definition py_startswith :: "string \<Rightarrow> string \<Rightarrow> bool" where
  "py_startswith s p = (take (length p) s = p)"

definition py_endswith :: "string \<Rightarrow> string \<Rightarrow> bool" where
  "py_endswith s p = (length p \<le> length s \<and> drop (length s - length p) s = p)"

text \<open>\<^verbatim>\<open>s.find(sub)\<close>: the least index at which \<^verbatim>\<open>sub\<close> occurs in \<^verbatim>\<open>s\<close>;
  \<^const>\<open>None\<close> stands for Python's -1.\<close>

fun py_find :: "string \<Rightarrow> string \<Rightarrow> nat option" where
  "py_find sub [] = (if sub = [] then Some 0 else None)"
| "py_find sub (c # cs) =
     (if take (length sub) (c # cs) = sub then Some 0
      else map_option Suc (py_find sub cs))"

text \<open>\<^verbatim>\<open>sub in s\<close>\<close>

definition py_in :: "string \<Rightarrow> string \<Rightarrow> bool" where
  "py_in sub s = (py_find sub s \<noteq> None)"

text \<open>\<^verbatim>\<open>s.split(sep, 1)\<close> for a non-empty separator: one element when \<^verbatim>\<open>sep\<close>
  does not occur, otherwise the parts before and after its first occurrence.\<close>

definition py_split1 :: "string \<Rightarrow> string \<Rightarrow> string list" where
  "py_split1 sep s =
     (case py_find sep s of
        None \<Rightarrow> [s]
      | Some i \<Rightarrow> [take i s, drop (i + length sep) s])"

text \<open>\<^verbatim>\<open>s.split(c)\<close> for a separator of one character, as in \<^verbatim>\<open>content.split('\n')\<close>.\<close>

fun py_split_char :: "char \<Rightarrow> string \<Rightarrow> string list" where
  "py_split_char sep [] = [[]]"
| "py_split_char sep (c # cs) =
     (if c = sep then [] # py_split_char sep cs
      else (case py_split_char sep cs of
              [] \<Rightarrow> [[c]]
            | l # ls \<Rightarrow> (c # l) # ls))"

text \<open>\<^verbatim>\<open>s.split()\<close>: the maximal runs of non-whitespace characters.\<close>

fun py_split_ws_aux :: "string \<Rightarrow> string \<Rightarrow> string list" where
  "py_split_ws_aux tok [] = (if tok = [] then [] else [rev tok])"
| "py_split_ws_aux tok (c # cs) =
     (if py_isspace c then (if tok = [] then [] else [rev tok]) @ py_split_ws_aux [] cs
      else py_split_ws_aux (c # tok) cs)"

definition py_split_ws :: "string \<Rightarrow> string list" where
  "py_split_ws s = py_split_ws_aux [] s"

text \<open>\<^verbatim>\<open>s.lower()\<close> on code points below 256: the ASCII capitals and the capitals
  of Latin-1 (192 to 222 without the multiplication sign 215) move up by 32.\<close>

definition py_lower_char :: "char \<Rightarrow> char" where
  "py_lower_char c =
     (let n = (of_char c :: nat) in
      if (65 \<le> n \<and> n \<le> 90) \<or> (192 \<le> n \<and> n \<le> 222 \<and> n \<noteq> 215)
      then char_of (n + 32) else c)"

definition py_lower :: "string \<Rightarrow> string" where
  "py_lower s = map py_lower_char s"

text \<open>\<^verbatim>\<open>str(n)\<close> for a natural number, used by the f-strings that carry line numbers.\<close>

definition digit_char :: "nat \<Rightarrow> char" where
  "digit_char d = char_of (48 + d)"

function py_str_nat :: "nat \<Rightarrow> string" where
  "py_str_nat n =
     (if n < 10 then [digit_char n] else py_str_nat (n div 10) @ [digit_char (n mod 10)])"
  by pat_completeness auto
termination
  by (relation "measure id") auto

declare py_str_nat.simps [simp del]

text \<open>\<^verbatim>\<open>enumerate(xs, start)\<close>\<close>

fun py_enumerate :: "nat \<Rightarrow> 'a list \<Rightarrow> (nat \<times> 'a) list" where
  "py_enumerate start [] = []"
| "py_enumerate start (x # xs) = (start, x) # py_enumerate (Suc start) xs"


section \<open>Python values, exceptions and package records\<close>

text \<open>The exceptions that the modelled code can meet. \<open>OtherError\<close> stands for any
  exception not named here (an \<^verbatim>\<open>OSError\<close> of the file system, a client error of the
  HTTP library), with its message.\<close>

datatype py_error =
    JSONDecodeError
  | ParseError
  | TypeError
  | ValueError
  | KeyError
  | AttributeError
  | TimeoutError
  | OtherError string

text \<open>The values that \<^verbatim>\<open>json.loads\<close> returns: \<^verbatim>\<open>None\<close>, booleans, integers, floats
  (their rational value), strings, lists, and dictionaries as association lists in
  insertion order with distinct keys. The same type carries the dynamically typed
  fields \<^verbatim>\<open>name\<close> and \<^verbatim>\<open>version\<close> of a package dictionary.\<close>

datatype json =
    JNull
  | JBool bool
  | JInt int
  | JFloat rat
  | JString string
  | JArray "json list"
  | JObject "(string \<times> json) list"

text \<open>The package dictionary that every extractor appends, with its seven keys.\<close>

record package =
  name :: json
  version :: json
  type :: string
  category :: string
  package_manager :: string
  file_path :: string
  source :: string

text \<open>Truth value of a Python value, as in \<^verbatim>\<open>if not package_name\<close>.\<close>

fun truthy :: "json \<Rightarrow> bool" where
  "truthy JNull = False"
| "truthy (JBool b) = b"
| "truthy (JInt i) = (i \<noteq> 0)"
| "truthy (JFloat r) = (r \<noteq> 0)"
| "truthy (JString s) = (s \<noteq> [])"
| "truthy (JArray xs) = (xs \<noteq> [])"
| "truthy (JObject kvs) = (kvs \<noteq> [])"

text \<open>\<^verbatim>\<open>key in data\<close> for a string key: key membership on a dictionary, element
  membership on a list, substring test on a string, \<^verbatim>\<open>TypeError\<close> otherwise.\<close>

fun py_contains :: "string \<Rightarrow> json \<Rightarrow> py_error + bool" where
  "py_contains k (JObject kvs) = Inr (k \<in> set (map fst kvs))"
| "py_contains k (JArray xs) = Inr (JString k \<in> set xs)"
| "py_contains k (JString s) = Inr (py_in k s)"
| "py_contains k JNull = Inl TypeError"
| "py_contains k (JBool b) = Inl TypeError"
| "py_contains k (JInt i) = Inl TypeError"
| "py_contains k (JFloat r) = Inl TypeError"

text \<open>\<^verbatim>\<open>data[key]\<close> for a string key: only a dictionary can be indexed by a string.\<close>

fun py_getitem :: "json \<Rightarrow> string \<Rightarrow> py_error + json" where
  "py_getitem (JObject kvs) k = (case map_of kvs k of None \<Rightarrow> Inl KeyError | Some v \<Rightarrow> Inr v)"
| "py_getitem (JArray xs) k = Inl TypeError"
| "py_getitem (JString s) k = Inl TypeError"
| "py_getitem JNull k = Inl TypeError"
| "py_getitem (JBool b) k = Inl TypeError"
| "py_getitem (JInt i) k = Inl TypeError"
| "py_getitem (JFloat r) k = Inl TypeError"

text \<open>\<^verbatim>\<open>data.get(key, default)\<close>: a method of dictionaries only.\<close>

fun py_get :: "json \<Rightarrow> string \<Rightarrow> json \<Rightarrow> py_error + json" where
  "py_get (JObject kvs) k d = (case map_of kvs k of None \<Rightarrow> Inr d | Some v \<Rightarrow> Inr v)"
| "py_get (JArray xs) k d = Inl AttributeError"
| "py_get (JString s) k d = Inl AttributeError"
| "py_get JNull k d = Inl AttributeError"
| "py_get (JBool b) k d = Inl AttributeError"
| "py_get (JInt i) k d = Inl AttributeError"
| "py_get (JFloat r) k d = Inl AttributeError"

text \<open>Sequencing of computations that may raise: the first exception ends the rest.\<close>

definition and_then :: "py_error + 'a \<Rightarrow> ('a \<Rightarrow> py_error + 'b) \<Rightarrow> py_error + 'b" where
  "and_then m f = (case m of Inl e \<Rightarrow> Inl e | Inr x \<Rightarrow> f x)"

text \<open>\<^verbatim>\<open>file_path.name\<close>: the last component of a path.\<close>

definition path_name :: "string \<Rightarrow> string" where
  "path_name p = rev (takeWhile (\<lambda>c. c \<noteq> CHR ''/'') (rev p))"

definition newline :: char where
  "newline = CHR 0x0A"

text \<open>The two quote characters of \<^verbatim>\<open>strip('"\'')\<close>.\<close>

definition quote_chars :: string where
  "quote_chars = [CHR 0x22, CHR 0x27]"


section \<open>The line scanners of the package extractor (src/package_extractor.py)\<close>

subsection \<open>requirements.txt\<close>

definition pip_operators :: "string list" where
  "pip_operators = [''=='', ''>='', ''<='', ''>'', ''<'', ''~='', ''!='']"

text \<open>The \<^verbatim>\<open>for operator in [...]\<close> loop of \<^verbatim>\<open>_parse_pip_specification\<close>. Unpacking
  the result of \<^verbatim>\<open>split\<close> into two names raises \<^verbatim>\<open>ValueError\<close> unless it has two
  elements.\<close>

fun parse_pip_loop :: "string list \<Rightarrow> string \<Rightarrow> py_error + (string \<times> string)" where
  "parse_pip_loop [] spec = Inr (spec, ''unknown'')"
| "parse_pip_loop (operator # rest) spec =
     (if py_in operator spec
      then (case py_split1 operator spec of
              [nm, ver] \<Rightarrow> Inr (py_strip nm, operator @ py_strip ver)
            | _ \<Rightarrow> Inl ValueError)
      else parse_pip_loop rest spec)"

text \<open>\<^verbatim>\<open>PackageExtractor._parse_pip_specification\<close>\<close>

definition parse_pip_specification :: "string \<Rightarrow> py_error + (string \<times> string)" where
  "parse_pip_specification spec = parse_pip_loop pip_operators (py_strip spec)"

text \<open>One turn of the loop of \<^verbatim>\<open>_extract_requirements_txt\<close> on a numbered line,
  from the list \<^verbatim>\<open>packages\<close> to its new value; the function has no handler of its
  own, so an exception leaves it.\<close>

definition requirements_step ::
  "string \<Rightarrow> nat \<times> string \<Rightarrow> package list \<Rightarrow> py_error + package list" where
  "requirements_step fp numbered packages =
     (let line_num = fst numbered; line = py_strip (snd numbered) in
      if line \<noteq> [] \<and> \<not> py_startswith line ''#''
      then (case parse_pip_specification line of
              Inl e \<Rightarrow> Inl e
            | Inr (nm, ver) \<Rightarrow>
                Inr (packages @
                   [\<lparr>name = JString nm, version = JString ver, type = ''dependency'',
                     category = ''requirements'', package_manager = ''pip'',
                     file_path = fp,
                     source = ''requirements.txt:line_'' @ py_str_nat line_num\<rparr>]))
      else Inr packages)"

fun requirements_loop ::
  "string \<Rightarrow> (nat \<times> string) list \<Rightarrow> package list \<Rightarrow> py_error + package list" where
  "requirements_loop fp [] packages = Inr packages"
| "requirements_loop fp (numbered # rest) packages =
     (case requirements_step fp numbered packages of
        Inl e \<Rightarrow> Inl e
      | Inr packages' \<Rightarrow> requirements_loop fp rest packages')"

text \<open>\<^verbatim>\<open>PackageExtractor._extract_requirements_txt\<close>\<close>

definition extract_requirements_txt :: "string \<Rightarrow> string \<Rightarrow> py_error + package list" where
  "extract_requirements_txt content fp =
     requirements_loop fp (py_enumerate 1 (py_split_char newline content)) []"

subsection \<open>pyproject.toml and Cargo.toml\<close>

text \<open>One turn of the loop of \<^verbatim>\<open>_extract_pyproject_toml\<close> on a numbered line, from
  the flag \<^verbatim>\<open>in_dependencies\<close> and the list \<^verbatim>\<open>packages\<close> to their new values
  (\<^const>\<open>Inr\<close>). The loop runs inside \<^verbatim>\<open>try ... except Exception\<close>, after which the
  function returns \<^verbatim>\<open>packages\<close> as it stands: a \<^verbatim>\<open>ValueError\<close> of the unpacking ends
  the loop with the list built so far (\<^const>\<open>Inl\<close>).\<close>

definition pyproject_step ::
  "string \<Rightarrow> nat \<times> string \<Rightarrow> bool \<times> package list \<Rightarrow> package list + bool \<times> package list" where
  "pyproject_step fp numbered st =
     (let line_num = fst numbered; line = py_strip (snd numbered);
          in_dependencies = fst st; packages = snd st in
      if py_startswith line ''[tool.poetry.dependencies]''
         \<or> py_startswith line ''[project.dependencies]''
      then Inr (True, packages)
      else if py_startswith line ''['' \<and> in_dependencies
      then Inr (False, packages)
      else if in_dependencies \<and> py_in ''='' line \<and> \<not> py_startswith line ''#''
      then (if py_in ''='' line
            then (case py_split1 ''='' line of
                    [nm, ver] \<Rightarrow>
                      Inr (in_dependencies,
                        packages @
                        [\<lparr>name = JString (py_strip_chars quote_chars (py_strip nm)),
                          version = JString (py_strip_chars quote_chars (py_strip ver)),
                          type = ''dependency'', category = ''dependencies'',
                          package_manager = ''pip'', file_path = fp,
                          source = ''pyproject.toml:line_'' @ py_str_nat line_num\<rparr>])
                  | _ \<Rightarrow> Inl packages)
            else Inr (in_dependencies, packages))
      else Inr (in_dependencies, packages))"

fun pyproject_loop ::
  "string \<Rightarrow> (nat \<times> string) list \<Rightarrow> bool \<times> package list \<Rightarrow> package list" where
  "pyproject_loop fp [] st = snd st"
| "pyproject_loop fp (numbered # rest) st =
     (case pyproject_step fp numbered st of
        Inl packages \<Rightarrow> packages
      | Inr st' \<Rightarrow> pyproject_loop fp rest st')"

text \<open>\<^verbatim>\<open>PackageExtractor._extract_pyproject_toml\<close>\<close>

definition extract_pyproject_toml :: "string \<Rightarrow> string \<Rightarrow> package list" where
  "extract_pyproject_toml content fp =
     pyproject_loop fp (py_enumerate 1 (py_split_char newline content)) (False, [])"

text \<open>One turn of the loop of \<^verbatim>\<open>_extract_cargo_packages\<close>, which runs inside
  \<^verbatim>\<open>try ... except Exception\<close> as well.\<close>

definition cargo_step ::
  "string \<Rightarrow> nat \<times> string \<Rightarrow> bool \<times> package list \<Rightarrow> package list + bool \<times> package list" where
  "cargo_step fp numbered st =
     (let line_num = fst numbered; line = py_strip (snd numbered);
          in_dependencies = fst st; packages = snd st in
      if py_startswith line ''[dependencies]''
      then Inr (True, packages)
      else if py_startswith line ''['' \<and> in_dependencies
      then Inr (False, packages)
      else if in_dependencies \<and> py_in ''='' line \<and> \<not> py_startswith line ''#''
      then (case py_split1 ''='' line of
              [nm, ver] \<Rightarrow>
                Inr (in_dependencies,
                  packages @
                  [\<lparr>name = JString (py_strip nm),
                    version = JString (py_strip_chars quote_chars (py_strip ver)),
                    type = ''dependency'', category = ''dependencies'',
                    package_manager = ''cargo'', file_path = fp,
                    source = ''Cargo.toml:line_'' @ py_str_nat line_num\<rparr>])
            | _ \<Rightarrow> Inl packages)
      else Inr (in_dependencies, packages))"

fun cargo_loop ::
  "string \<Rightarrow> (nat \<times> string) list \<Rightarrow> bool \<times> package list \<Rightarrow> package list" where
  "cargo_loop fp [] st = snd st"
| "cargo_loop fp (numbered # rest) st =
     (case cargo_step fp numbered st of
        Inl packages \<Rightarrow> packages
      | Inr st' \<Rightarrow> cargo_loop fp rest st')"

text \<open>\<^verbatim>\<open>PackageExtractor._extract_cargo_packages\<close>\<close>

definition extract_cargo_packages :: "string \<Rightarrow> string \<Rightarrow> package list" where
  "extract_cargo_packages content fp =
     cargo_loop fp (py_enumerate 1 (py_split_char newline content)) (False, [])"

subsection \<open>go.mod\<close>

text \<open>One turn of the loop of \<^verbatim>\<open>_extract_go_packages\<close>; \<^verbatim>\<open>parts[1]\<close> and
  \<^verbatim>\<open>parts[2]\<close> are read only under the length tests of the source.\<close>

definition go_step :: "string \<Rightarrow> nat \<times> string \<Rightarrow> package list \<Rightarrow> package list" where
  "go_step fp numbered packages =
     (let line_num = fst numbered; line = py_strip (snd numbered) in
      if py_startswith line ''require '' \<or> py_startswith line ''replace ''
      then (let parts = py_split_ws line in
            if length parts \<ge> 2
            then packages @
                   [\<lparr>name = JString (parts ! 1),
                     version = JString (if length parts > 2 then parts ! 2 else ''unknown''),
                     type = ''dependency'', category = ''require'',
                     package_manager = ''go'', file_path = fp,
                     source = ''go.mod:line_'' @ py_str_nat line_num\<rparr>]
            else packages)
      else packages)"

fun go_loop :: "string \<Rightarrow> (nat \<times> string) list \<Rightarrow> package list \<Rightarrow> package list" where
  "go_loop fp [] packages = packages"
| "go_loop fp (numbered # rest) packages = go_loop fp rest (go_step fp numbered packages)"

text \<open>\<^verbatim>\<open>PackageExtractor._extract_go_packages\<close>\<close>

definition extract_go_packages :: "string \<Rightarrow> string \<Rightarrow> package list" where
  "extract_go_packages content fp =
     go_loop fp (py_enumerate 1 (py_split_char newline content)) []"


section \<open>Library functions that the extractor calls\<close>

text \<open>An element of \<^verbatim>\<open>xml.etree.ElementTree\<close>: tag, attributes, text (which may be
  \<^verbatim>\<open>None\<close>) and child elements in document order.\<close>

datatype element =
  Element (elem_tag: string) (elem_attrib: "(string \<times> string) list")
    (elem_text: "string option") (elem_children: "element list")

text \<open>\<^verbatim>\<open>elem.iter()\<close>: the element and all elements below it, in document order.\<close>

fun iter :: "element \<Rightarrow> element list" where
  "iter (Element t a x cs) = Element t a x cs # concat (map iter cs)"

text \<open>\<^verbatim>\<open>root.findall('.//tag')\<close> and \<^verbatim>\<open>root.find('.//tag')\<close>: the elements with the
  tag strictly below the root, all of them or the first.\<close>

definition findall_below :: "element \<Rightarrow> string \<Rightarrow> element list" where
  "findall_below doc t =
     filter (\<lambda>e. elem_tag e = t) (concat (map iter (elem_children doc)))"

definition find_below :: "element \<Rightarrow> string \<Rightarrow> element option" where
  "find_below doc t = (case findall_below doc t of [] \<Rightarrow> None | e # _ \<Rightarrow> Some e)"

text \<open>\<^verbatim>\<open>elem.findall('tag')\<close> and \<^verbatim>\<open>elem.find('tag')\<close>: the direct children with the
  tag, all of them or the first.\<close>

definition findall_child :: "element \<Rightarrow> string \<Rightarrow> element list" where
  "findall_child e t = filter (\<lambda>c. elem_tag c = t) (elem_children e)"

definition find_child :: "element \<Rightarrow> string \<Rightarrow> element option" where
  "find_child e t = (case findall_child e t of [] \<Rightarrow> None | c # _ \<Rightarrow> Some c)"

text \<open>\<^verbatim>\<open>elem.get(key)\<close>\<close>

definition elem_get :: "element \<Rightarrow> string \<Rightarrow> string option" where
  "elem_get e k = map_of (elem_attrib e) k"

text \<open>The regular expressions of the extractor, by the place that uses them:
  \<^item> \<open>RE_install_requires\<close>: \<^verbatim>\<open>install_requires\s*=\s*\[(.*?)\]\<close> with \<^verbatim>\<open>re.DOTALL\<close>;
  \<^item> \<open>RE_quoted\<close>: \<^verbatim>\<open>["\']([^"\']+)["\']\<close>;
  \<^item> \<open>RE_name\<close>: \<^verbatim>\<open>name\s*=\s*["\']([^"\']+)["\']\<close>;
  \<^item> \<open>RE_version\<close>: \<^verbatim>\<open>version\s*=\s*["\']([^"\']+)["\']\<close>;
  \<^item> \<open>RE_gradle_string\<close>: a configuration word of Gradle, white space and one quoted
    string (one group);
  \<^item> \<open>RE_gradle_group\<close>: a configuration word of Gradle followed by quoted
    \<^verbatim>\<open>group:\<close>, \<^verbatim>\<open>name:\<close> and \<^verbatim>\<open>version:\<close> arguments (three groups);
  \<^item> \<open>RE_npm_install\<close>: \<^verbatim>\<open>npm\s+install\s+([a-zA-Z0-9@\-_/]+)\<close>;
  \<^item> \<open>RE_yarn_add\<close>: \<^verbatim>\<open>yarn\s+add\s+([a-zA-Z0-9@\-_/]+)\<close>;
  \<^item> \<open>RE_pip_install\<close>: \<^verbatim>\<open>pip\s+install\s+([a-zA-Z0-9\-_]+)\<close>;
  \<^item> \<open>RE_composer_require\<close>: \<^verbatim>\<open>composer\s+require\s+([a-zA-Z0-9\-_/]+)\<close>;
  \<^item> \<open>RE_gem\<close>: \<^verbatim>\<open>gem\s+["\']([^"\']+)["\'](?:\s*,\s*["\']([^"\']+)["\'])?\<close>.\<close>

datatype regex =
    RE_install_requires
  | RE_quoted
  | RE_name
  | RE_version
  | RE_gradle_string
  | RE_gradle_group
  | RE_npm_install
  | RE_yarn_add
  | RE_pip_install
  | RE_composer_require
  | RE_gem

text \<open>The functions of the Python standard library that the extractor calls; they are
  parameters of the model:
  \<^item> \<open>json_loads\<close> is \<^verbatim>\<open>json.loads\<close>;
  \<^item> \<open>ET_fromstring\<close> is \<^verbatim>\<open>xml.etree.ElementTree.fromstring\<close>;
  \<^item> \<open>re_search\<close> is \<^verbatim>\<open>re.search(pattern, s)\<close> for a pattern with one group:
    \<^verbatim>\<open>group(1)\<close> of the first match, if there is a match;
  \<^item> \<open>re_findall\<close> is \<^verbatim>\<open>re.findall(pattern, s)\<close> for a pattern with one group:
    the list of the texts of the group;
  \<^item> \<open>re_findall3\<close> is \<^verbatim>\<open>re.findall(pattern, s)\<close> for a pattern with three groups:
    a list of triples;
  \<^item> \<open>re_match2\<close> is \<^verbatim>\<open>re.match(pattern, s)\<close> for a pattern whose second group is
    optional: \<^verbatim>\<open>group(1)\<close> and \<^verbatim>\<open>group(2)\<close> of the match, if the string matches.\<close>

record stdlib =
  json_loads :: "string \<Rightarrow> py_error + json"
  ET_fromstring :: "string \<Rightarrow> py_error + element"
  re_search :: "regex \<Rightarrow> string \<Rightarrow> string option"
  re_findall :: "regex \<Rightarrow> string \<Rightarrow> string list"
  re_findall3 :: "regex \<Rightarrow> string \<Rightarrow> (string \<times> string \<times> string) list"
  re_match2 :: "regex \<Rightarrow> string \<Rightarrow> (string \<times> string option) option"

text \<open>The file system: \<open>read_text\<close> is \<^verbatim>\<open>file_path.read_text(encoding='utf-8',
  errors='ignore')\<close>, \<open>glob\<close> is \<^verbatim>\<open>directory.glob(pattern)\<close> with the paths it yields
  (an exception of the enumeration stands for the whole of it), \<open>is_file\<close> is
  \<^verbatim>\<open>file_path.is_file()\<close>.\<close>

record filesystem =
  read_text :: "string \<Rightarrow> py_error + string"
  glob :: "string \<Rightarrow> string \<Rightarrow> py_error + string list"
  is_file :: "string \<Rightarrow> bool"


section \<open>The JSON manifests: package.json and composer.json\<close>

text \<open>The block that builds the entry of the package itself, the same in
  \<^verbatim>\<open>_extract_npm_packages\<close> and \<^verbatim>\<open>_extract_composer_packages\<close> up to the package
  manager \<open>pm\<close> and the source name \<open>src\<close>.\<close>

definition main_block :: "string \<Rightarrow> string \<Rightarrow> json \<Rightarrow> string \<Rightarrow> py_error + package list" where
  "main_block pm src data fp =
     and_then (py_contains ''name'' data) (\<lambda>present.
       if present
       then and_then (py_getitem data ''name'') (\<lambda>nm.
            and_then (py_get data ''version'' (JString ''unknown'')) (\<lambda>ver.
              Inr [\<lparr>name = nm, version = ver, type = ''package'', category = ''main'',
                    package_manager = pm, file_path = fp, source = src\<rparr>]))
       else Inr [])"

text \<open>The body of \<^verbatim>\<open>for deps_key in [...]\<close> for one key: the entries of
  \<^verbatim>\<open>data[deps_key]\<close> when the key is present and its value is a dictionary.\<close>

definition deps_block ::
  "string \<Rightarrow> string \<Rightarrow> json \<Rightarrow> string \<Rightarrow> string \<Rightarrow> py_error + package list" where
  "deps_block pm src data fp deps_key =
     and_then (py_contains deps_key data) (\<lambda>present.
       if present
       then and_then (py_getitem data deps_key) (\<lambda>deps.
              case deps of
                JObject kvs \<Rightarrow>
                  Inr (map (\<lambda>(nm, ver).
                         \<lparr>name = JString nm, version = ver, type = ''dependency'',
                           category = deps_key, package_manager = pm, file_path = fp,
                           source = src\<rparr>) kvs)
              | _ \<Rightarrow> Inr [])
       else Inr [])"

fun deps_loop ::
  "string \<Rightarrow> string \<Rightarrow> json \<Rightarrow> string \<Rightarrow> string list \<Rightarrow> py_error + package list" where
  "deps_loop pm src data fp [] = Inr []"
| "deps_loop pm src data fp (deps_key # rest) =
     and_then (deps_block pm src data fp deps_key) (\<lambda>ps.
     and_then (deps_loop pm src data fp rest) (\<lambda>qs. Inr (ps @ qs)))"

definition script_patterns :: "regex list" where
  "script_patterns = [RE_npm_install, RE_yarn_add, RE_pip_install, RE_composer_require]"

text \<open>\<^verbatim>\<open>PackageExtractor._extract_package_references_from_text\<close>; \<^verbatim>\<open>re.findall\<close> raises
  \<^verbatim>\<open>TypeError\<close> on a value that is not a string.\<close>

definition extract_package_references_from_text ::
  "'a stdlib_scheme \<Rightarrow> json \<Rightarrow> py_error + string list" where
  "extract_package_references_from_text lib txt =
     (case txt of
        JString t \<Rightarrow> Inr (concat (map (\<lambda>pattern. re_findall lib pattern t) script_patterns))
      | _ \<Rightarrow> Inl TypeError)"

fun scripts_loop ::
  "'a stdlib_scheme \<Rightarrow> string \<Rightarrow> (string \<times> json) list \<Rightarrow> py_error + package list" where
  "scripts_loop lib fp [] = Inr []"
| "scripts_loop lib fp ((script_name, script_content) # rest) =
     and_then (extract_package_references_from_text lib script_content) (\<lambda>package_refs.
     and_then (scripts_loop lib fp rest) (\<lambda>qs.
       Inr (map (\<lambda>pkg_name.
              \<lparr>name = JString pkg_name, version = JString ''unknown'',
                type = ''script_reference'', category = ''scripts'',
                package_manager = ''npm'', file_path = fp,
                source = ''package.json:scripts:'' @ script_name\<rparr>) package_refs @ qs)))"

definition scripts_block :: "'a stdlib_scheme \<Rightarrow> json \<Rightarrow> string \<Rightarrow> py_error + package list" where
  "scripts_block lib data fp =
     and_then (py_contains ''scripts'' data) (\<lambda>present.
       if present
       then and_then (py_getitem data ''scripts'') (\<lambda>scripts.
              case scripts of
                JObject kvs \<Rightarrow> scripts_loop lib fp kvs
              | _ \<Rightarrow> Inr [])
       else Inr [])"

text \<open>\<^verbatim>\<open>PackageExtractor._extract_npm_packages\<close>. The function catches
  \<^verbatim>\<open>json.JSONDecodeError\<close> alone, which only \<^verbatim>\<open>json.loads\<close> raises, before any entry
  is appended; every other exception leaves the function.\<close>

definition extract_npm_packages ::
  "'a stdlib_scheme \<Rightarrow> string \<Rightarrow> string \<Rightarrow> py_error + package list" where
  "extract_npm_packages lib content fp =
     (case json_loads lib content of
        Inl e \<Rightarrow> (if e = JSONDecodeError then Inr [] else Inl e)
      | Inr data \<Rightarrow>
          and_then (main_block ''npm'' ''package.json'' data fp) (\<lambda>main.
          and_then (deps_loop ''npm'' ''package.json'' data fp
                      [''dependencies'', ''devDependencies'', ''peerDependencies'',
                       ''optionalDependencies'']) (\<lambda>deps.
          and_then (scripts_block lib data fp) (\<lambda>refs.
            Inr (main @ deps @ refs)))))"

text \<open>\<^verbatim>\<open>PackageExtractor._extract_composer_packages\<close>\<close>

definition extract_composer_packages ::
  "'a stdlib_scheme \<Rightarrow> string \<Rightarrow> string \<Rightarrow> py_error + package list" where
  "extract_composer_packages lib content fp =
     (case json_loads lib content of
        Inl e \<Rightarrow> (if e = JSONDecodeError then Inr [] else Inl e)
      | Inr data \<Rightarrow>
          and_then (main_block ''composer'' ''composer.json'' data fp) (\<lambda>main.
          and_then (deps_loop ''composer'' ''composer.json'' data fp
                      [''require'', ''require-dev'']) (\<lambda>deps.
            Inr (main @ deps))))"


section \<open>The other manifests\<close>

subsection \<open>setup.py\<close>

text \<open>The loop over the quoted strings of \<^verbatim>\<open>install_requires\<close>. The whole of
  \<^verbatim>\<open>_extract_setup_py\<close> runs inside \<^verbatim>\<open>try ... except Exception\<close> and returns
  \<^verbatim>\<open>packages\<close> afterwards: an exception ends the function with the list built so far
  (\<^const>\<open>Inl\<close>).\<close>

fun setup_deps_loop :: "string \<Rightarrow> string list \<Rightarrow> package list \<Rightarrow> package list + package list" where
  "setup_deps_loop fp [] packages = Inr packages"
| "setup_deps_loop fp (dep # rest) packages =
     (case parse_pip_specification dep of
        Inl e \<Rightarrow> Inl packages
      | Inr (nm, ver) \<Rightarrow>
          setup_deps_loop fp rest
            (packages @
             [\<lparr>name = JString nm, version = JString ver, type = ''dependency'',
               category = ''install_requires'', package_manager = ''pip'',
               file_path = fp, source = ''setup.py:install_requires''\<rparr>]))"

text \<open>\<^verbatim>\<open>PackageExtractor._extract_setup_py\<close>\<close>

definition extract_setup_py :: "'a stdlib_scheme \<Rightarrow> string \<Rightarrow> string \<Rightarrow> package list" where
  "extract_setup_py lib content fp =
     (case (case re_search lib RE_install_requires content of
              None \<Rightarrow> Inr []
            | Some deps_text \<Rightarrow> setup_deps_loop fp (re_findall lib RE_quoted deps_text) []) of
        Inl packages \<Rightarrow> packages
      | Inr packages \<Rightarrow>
          (let name_match = re_search lib RE_name content;
               version_match = re_search lib RE_version content
           in case name_match of
                None \<Rightarrow> packages
              | Some nm \<Rightarrow>
                  packages @
                  [\<lparr>name = JString nm,
                    version = JString (case version_match of Some v \<Rightarrow> v | None \<Rightarrow> ''unknown''),
                    type = ''package'', category = ''main'', package_manager = ''pip'',
                    file_path = fp, source = ''setup.py:main''\<rparr>]))"

text \<open>\<^verbatim>\<open>PackageExtractor._extract_pip_packages\<close>: the comparison of \<^verbatim>\<open>file_path.name\<close>
  is exact, and any exception of the chosen extractor leaves \<^verbatim>\<open>packages\<close> empty.\<close>

definition extract_pip_packages :: "'a stdlib_scheme \<Rightarrow> string \<Rightarrow> string \<Rightarrow> package list" where
  "extract_pip_packages lib content fp =
     (if path_name fp = ''requirements.txt''
      then (case extract_requirements_txt content fp of Inl e \<Rightarrow> [] | Inr packages \<Rightarrow> packages)
      else if path_name fp = ''setup.py'' then extract_setup_py lib content fp
      else if path_name fp = ''pyproject.toml'' then extract_pyproject_toml content fp
      else [])"

subsection \<open>pom.xml\<close>

definition POM :: string where
  "POM = ''{http://maven.apache.org/POM/4.0.0}''"

text \<open>The text of an element inside an f-string: \<^verbatim>\<open>None\<close> prints as \<^verbatim>\<open>None\<close>.\<close>

definition format_text :: "string option \<Rightarrow> string" where
  "format_text t = (case t of None \<Rightarrow> ''None'' | Some s \<Rightarrow> s)"

text \<open>\<^verbatim>\<open>f"{g.text if g is not None else 'unknown'}:{a.text}"\<close> and
  \<^verbatim>\<open>v.text if v is not None else 'unknown'\<close>.\<close>

definition maven_name :: "element option \<Rightarrow> element \<Rightarrow> json" where
  "maven_name group_id artifact_id =
     JString ((case group_id of None \<Rightarrow> ''unknown'' | Some g \<Rightarrow> format_text (elem_text g))
              @ '':'' @ format_text (elem_text artifact_id))"

definition maven_version :: "element option \<Rightarrow> json" where
  "maven_version v =
     (case v of
        None \<Rightarrow> JString ''unknown''
      | Some e \<Rightarrow> (case elem_text e of None \<Rightarrow> JNull | Some t \<Rightarrow> JString t))"

definition maven_main :: "element \<Rightarrow> string \<Rightarrow> package list" where
  "maven_main doc fp =
     (let group_id = find_below doc (POM @ ''groupId'');
          artifact_id = find_below doc (POM @ ''artifactId'');
          ver = find_below doc (POM @ ''version'')
      in case artifact_id of
           None \<Rightarrow> []
         | Some a \<Rightarrow>
             [\<lparr>name = maven_name group_id a, version = maven_version ver,
               type = ''package'', category = ''main'', package_manager = ''maven'',
               file_path = fp, source = ''pom.xml:main''\<rparr>])"

definition maven_dependency :: "string \<Rightarrow> element \<Rightarrow> package list" where
  "maven_dependency fp dep =
     (let dep_group_id = find_child dep (POM @ ''groupId'');
          dep_artifact_id = find_child dep (POM @ ''artifactId'');
          dep_version = find_child dep (POM @ ''version'')
      in case dep_artifact_id of
           None \<Rightarrow> []
         | Some a \<Rightarrow>
             [\<lparr>name = maven_name dep_group_id a, version = maven_version dep_version,
               type = ''dependency'', category = ''dependencies'',
               package_manager = ''maven'', file_path = fp,
               source = ''pom.xml:dependencies''\<rparr>])"

text \<open>\<^verbatim>\<open>PackageExtractor._extract_maven_packages\<close>: both handlers return \<^verbatim>\<open>packages\<close>,
  which is empty when \<^verbatim>\<open>ET.fromstring\<close> raises.\<close>

definition extract_maven_packages :: "'a stdlib_scheme \<Rightarrow> string \<Rightarrow> string \<Rightarrow> package list" where
  "extract_maven_packages lib content fp =
     (case ET_fromstring lib content of
        Inl e \<Rightarrow> []
      | Inr doc \<Rightarrow>
          maven_main doc fp
          @ concat (map (maven_dependency fp) (findall_below doc (POM @ ''dependency''))))"

subsection \<open>build.gradle\<close>

text \<open>\<^verbatim>\<open>PackageExtractor._extract_gradle_packages\<close>: the matches of the first pattern
  are strings, those of the second are triples, so the test \<^verbatim>\<open>isinstance(match, tuple)\<close>
  is decided by the pattern.\<close>

definition extract_gradle_packages :: "'a stdlib_scheme \<Rightarrow> string \<Rightarrow> string \<Rightarrow> package list" where
  "extract_gradle_packages lib content fp =
     map (\<lambda>m. \<lparr>name = JString m, version = JString ''unknown'', type = ''dependency'',
               category = ''gradle'', package_manager = ''gradle'', file_path = fp,
               source = ''build.gradle''\<rparr>)
       (re_findall lib RE_gradle_string content)
     @ map (\<lambda>(grp, nm, ver).
             \<lparr>name = JString (grp @ '':'' @ nm), version = JString ver, type = ''dependency'',
               category = ''gradle'', package_manager = ''gradle'', file_path = fp,
               source = ''build.gradle''\<rparr>)
         (re_findall3 lib RE_gradle_group content)"

subsection \<open>Gemfile\<close>

definition ruby_step :: "'a stdlib_scheme \<Rightarrow> string \<Rightarrow> nat \<times> string \<Rightarrow> package list \<Rightarrow> package list" where
  "ruby_step lib fp numbered packages =
     (let line_num = fst numbered; line = py_strip (snd numbered) in
      if py_startswith line ''gem ''
      then (case re_match2 lib RE_gem line of
              None \<Rightarrow> packages
            | Some (nm, g2) \<Rightarrow>
                packages @
                [\<lparr>name = JString nm,
                  version = JString (case g2 of
                                       None \<Rightarrow> ''unknown''
                                     | Some v \<Rightarrow> if v \<noteq> [] then v else ''unknown''),
                  type = ''dependency'', category = ''gem'', package_manager = ''ruby'',
                  file_path = fp, source = ''Gemfile:line_'' @ py_str_nat line_num\<rparr>])
      else packages)"

fun ruby_loop ::
  "'a stdlib_scheme \<Rightarrow> string \<Rightarrow> (nat \<times> string) list \<Rightarrow> package list \<Rightarrow> package list" where
  "ruby_loop lib fp [] packages = packages"
| "ruby_loop lib fp (numbered # rest) packages =
     ruby_loop lib fp rest (ruby_step lib fp numbered packages)"

text \<open>\<^verbatim>\<open>PackageExtractor._extract_ruby_packages\<close>\<close>

definition extract_ruby_packages :: "'a stdlib_scheme \<Rightarrow> string \<Rightarrow> string \<Rightarrow> package list" where
  "extract_ruby_packages lib content fp =
     ruby_loop lib fp (py_enumerate 1 (py_split_char newline content)) []"

subsection \<open>packages.config and project files\<close>

text \<open>The loop body shared by \<^verbatim>\<open>_extract_packages_config\<close> and
  \<^verbatim>\<open>_extract_csproj_packages\<close>: an entry when the name attribute is present and not
  empty, with \<^verbatim>\<open>version_attr or 'unknown'\<close>.\<close>

definition nuget_entry ::
  "string \<Rightarrow> string \<Rightarrow> string \<Rightarrow> string option \<Rightarrow> string option \<Rightarrow> package list" where
  "nuget_entry fp cat src id_attr version_attr =
     (case id_attr of
        None \<Rightarrow> []
      | Some i \<Rightarrow>
          if i \<noteq> []
          then [\<lparr>name = JString i,
                 version = JString (case version_attr of
                                      None \<Rightarrow> ''unknown''
                                    | Some v \<Rightarrow> if v \<noteq> [] then v else ''unknown''),
                 type = ''dependency'', category = cat, package_manager = ''nuget'',
                 file_path = fp, source = src\<rparr>]
          else [])"

text \<open>\<^verbatim>\<open>PackageExtractor._extract_packages_config\<close>, which catches \<^verbatim>\<open>ET.ParseError\<close>
  alone.\<close>

definition extract_packages_config ::
  "'a stdlib_scheme \<Rightarrow> string \<Rightarrow> string \<Rightarrow> py_error + package list" where
  "extract_packages_config lib content fp =
     (case ET_fromstring lib content of
        Inl e \<Rightarrow> (if e = ParseError then Inr [] else Inl e)
      | Inr doc \<Rightarrow>
          Inr (concat (map (\<lambda>pkg. nuget_entry fp ''package'' ''packages.config''
                                     (elem_get pkg ''id'') (elem_get pkg ''version''))
                         (findall_child doc ''package''))))"

text \<open>\<^verbatim>\<open>PackageExtractor._extract_csproj_packages\<close>\<close>

definition extract_csproj_packages ::
  "'a stdlib_scheme \<Rightarrow> string \<Rightarrow> string \<Rightarrow> py_error + package list" where
  "extract_csproj_packages lib content fp =
     (case ET_fromstring lib content of
        Inl e \<Rightarrow> (if e = ParseError then Inr [] else Inl e)
      | Inr doc \<Rightarrow>
          Inr (concat (map (\<lambda>package_ref. nuget_entry fp ''PackageReference'' ''.csproj''
                                     (elem_get package_ref ''Include'')
                                     (elem_get package_ref ''Version''))
                         (findall_below doc ''PackageReference''))))"

text \<open>\<^verbatim>\<open>PackageExtractor._extract_nuget_packages\<close>: any exception of the chosen
  extractor leaves \<^verbatim>\<open>packages\<close> empty.\<close>

definition extract_nuget_packages :: "'a stdlib_scheme \<Rightarrow> string \<Rightarrow> string \<Rightarrow> package list" where
  "extract_nuget_packages lib content fp =
     (if path_name fp = ''packages.config''
      then (case extract_packages_config lib content fp of Inl e \<Rightarrow> [] | Inr packages \<Rightarrow> packages)
      else if py_endswith (path_name fp) ''.csproj'' \<or> py_endswith (path_name fp) ''.vbproj''
      then (case extract_csproj_packages lib content fp of Inl e \<Rightarrow> [] | Inr packages \<Rightarrow> packages)
      else [])"


section \<open>The extraction coordinator\<close>

text \<open>\<^verbatim>\<open>PackageExtractor._identify_package_type\<close>\<close>

definition identify_package_type :: "string \<Rightarrow> string option" where
  "identify_package_type fp =
     (let filename = py_lower (path_name fp) in
      if filename = ''package.json'' then Some ''npm''
      else if filename = ''yarn.lock'' then Some ''yarn''
      else if filename = ''requirements.txt'' then Some ''pip''
      else if filename = ''setup.py'' then Some ''pip''
      else if filename = ''pyproject.toml'' then Some ''pip''
      else if filename = ''pom.xml'' then Some ''maven''
      else if filename \<in> set [''build.gradle'', ''build.gradle.kts''] then Some ''gradle''
      else if filename = ''composer.json'' then Some ''composer''
      else if filename = ''cargo.toml'' then Some ''cargo''
      else if filename \<in> set [''go.mod'', ''go.sum''] then Some ''go''
      else if filename \<in> set [''gemfile'', ''gemfile.lock''] then Some ''ruby''
      else if filename = ''packages.config'' then Some ''nuget''
      else if py_endswith filename ''.csproj'' \<or> py_endswith filename ''.vbproj''
      then Some ''nuget''
      else None)"

text \<open>The chain of \<^verbatim>\<open>if package_type == ...\<close> of \<^verbatim>\<open>_extract_packages_from_file\<close>; a
  type that no branch names (\<^verbatim>\<open>yarn\<close>) falls through to the final \<^verbatim>\<open>return []\<close>.\<close>

definition dispatch ::
  "'a stdlib_scheme \<Rightarrow> string \<Rightarrow> string \<Rightarrow> string \<Rightarrow> py_error + package list" where
  "dispatch lib package_type content fp =
     (if package_type = ''npm'' then extract_npm_packages lib content fp
      else if package_type = ''pip'' then Inr (extract_pip_packages lib content fp)
      else if package_type = ''maven'' then Inr (extract_maven_packages lib content fp)
      else if package_type = ''gradle'' then Inr (extract_gradle_packages lib content fp)
      else if package_type = ''composer'' then extract_composer_packages lib content fp
      else if package_type = ''cargo'' then Inr (extract_cargo_packages content fp)
      else if package_type = ''go'' then Inr (extract_go_packages content fp)
      else if package_type = ''ruby'' then Inr (extract_ruby_packages lib content fp)
      else if package_type = ''nuget'' then Inr (extract_nuget_packages lib content fp)
      else Inr [])"

text \<open>\<^verbatim>\<open>PackageExtractor._extract_packages_from_file\<close>: the whole body is inside
  \<^verbatim>\<open>try ... except Exception\<close>, after which the function returns the empty list.\<close>

definition extract_packages_from_file ::
  "'a stdlib_scheme \<Rightarrow> 'b filesystem_scheme \<Rightarrow> string \<Rightarrow> package list" where
  "extract_packages_from_file lib fs fp =
     (case identify_package_type fp of
        None \<Rightarrow> []
      | Some package_type \<Rightarrow>
          (case read_text fs fp of
             Inl e \<Rightarrow> []
           | Inr content \<Rightarrow>
               if content = [] then []
               else (case dispatch lib package_type content fp of
                       Inl e \<Rightarrow> []
                     | Inr packages \<Rightarrow> packages)))"

definition PACKAGE_FILE_PATTERNS :: "string list" where
  "PACKAGE_FILE_PATTERNS =
     [''**/package.json'', ''**/requirements.txt'', ''**/setup.py'', ''**/pyproject.toml'',
      ''**/pom.xml'', ''**/build.gradle'', ''**/build.gradle.kts'', ''**/composer.json'',
      ''**/Cargo.toml'', ''**/go.mod'', ''**/go.sum'', ''**/Gemfile'',
      ''**/packages.config'', ''**/*.csproj'', ''**/*.vbproj'']"

text \<open>\<^verbatim>\<open>PackageExtractor._find_package_files\<close>: an exception ends the search with the
  files found so far.\<close>

fun find_loop :: "'b filesystem_scheme \<Rightarrow> string \<Rightarrow> string list \<Rightarrow> string list \<Rightarrow> string list" where
  "find_loop fs directory [] package_files = package_files"
| "find_loop fs directory (pattern # rest) package_files =
     (case glob fs directory pattern of
        Inl e \<Rightarrow> package_files
      | Inr paths \<Rightarrow> find_loop fs directory rest (package_files @ filter (is_file fs) paths))"

definition find_package_files :: "'b filesystem_scheme \<Rightarrow> string \<Rightarrow> string list" where
  "find_package_files fs directory = find_loop fs directory PACKAGE_FILE_PATTERNS []"

text \<open>The two lists that the extractor object keeps; an entry of
  \<^verbatim>\<open>package_files_found\<close> is a path with its number of packages.\<close>

record extractor =
  extracted_packages :: "package list"
  package_files_found :: "(string \<times> nat) list"

text \<open>The loop of \<^verbatim>\<open>extract_packages_from_directory\<close> over the files found.\<close>

fun directory_loop ::
  "'a stdlib_scheme \<Rightarrow> 'b filesystem_scheme \<Rightarrow> string list \<Rightarrow> extractor \<Rightarrow> extractor" where
  "directory_loop lib fs [] st = st"
| "directory_loop lib fs (fp # rest) st =
     (let packages = extract_packages_from_file lib fs fp in
      if packages \<noteq> []
      then directory_loop lib fs rest
             \<lparr>extracted_packages = extracted_packages st @ packages,
              package_files_found = package_files_found st @ [(fp, length packages)]\<rparr>
      else directory_loop lib fs rest st)"

text \<open>\<^verbatim>\<open>PackageExtractor.extract_packages_from_directory\<close>: the returned list and the
  state of the object afterwards. No call inside its \<^verbatim>\<open>try\<close> raises, so the handler
  that returns the empty list is never entered.\<close>

definition extract_packages_from_directory ::
  "'a stdlib_scheme \<Rightarrow> 'b filesystem_scheme \<Rightarrow> string \<Rightarrow> package list \<times> extractor" where
  "extract_packages_from_directory lib fs directory =
     (let st = directory_loop lib fs (find_package_files fs directory)
                 \<lparr>extracted_packages = [], package_files_found = []\<rparr>
      in (extracted_packages st, st))"


section \<open>Configuration (config/settings.py)\<close>

definition NPM_RATE_LIMIT :: nat where "NPM_RATE_LIMIT = 1000"
definition MAX_CONCURRENT_NPM_CHECKS :: nat where "MAX_CONCURRENT_NPM_CHECKS = 10"
definition MAX_RETRIES :: nat where "MAX_RETRIES = 3"
definition RETRY_DELAY :: nat where "RETRY_DELAY = 1"
definition BACKOFF_FACTOR :: nat where "BACKOFF_FACTOR = 2"


section \<open>The heuristic risk check of the npm checker (src/npm_checker.py)\<close>

text \<open>The loop of \<^verbatim>\<open>NPMChecker._is_similar_name\<close> that walks \<^verbatim>\<open>i\<close> over the
  shorter and \<^verbatim>\<open>j\<close> over the longer name; it returns the final value of \<^verbatim>\<open>i\<close>.\<close>

function subsequence_loop :: "string \<Rightarrow> string \<Rightarrow> nat \<Rightarrow> nat \<Rightarrow> nat" where
  "subsequence_loop shorter longer i j =
     (if i < length shorter \<and> j < length longer
      then (if shorter ! i = longer ! j
            then subsequence_loop shorter longer (i + 1) (j + 1)
            else subsequence_loop shorter longer i (j + 1))
      else i)"
  by pat_completeness auto
termination
  by (relation "measure (\<lambda>(shorter, longer, i, j). length longer - j)") auto

declare subsequence_loop.simps [simp del]

text \<open>\<^verbatim>\<open>sum(c1 != c2 for c1, c2 in zip(name1, name2))\<close>\<close>

definition differences :: "string \<Rightarrow> string \<Rightarrow> nat" where
  "differences name1 name2 =
     sum_list (map (\<lambda>(c1, c2). if c1 \<noteq> c2 then 1 else 0) (zip name1 name2))"

text \<open>\<^verbatim>\<open>NPMChecker._is_similar_name\<close>\<close>

definition is_similar_name :: "string \<Rightarrow> string \<Rightarrow> bool" where
  "is_similar_name name1 name2 =
     (if \<bar>int (length name1) - int (length name2)\<bar> > 2 then False
      else if length name1 = length name2 then differences name1 name2 \<le> 1
      else
        (let (shorter, longer) =
               (if length name1 < length name2 then (name1, name2) else (name2, name1))
         in if length longer - length shorter = 1
            then subsequence_loop shorter longer 0 0 = length shorter
            else False))"

definition suspicious_patterns :: "string list" where
  "suspicious_patterns =
     [''test'', ''demo'', ''example'', ''sample'', ''temp'', ''tmp'',
      ''backup'', ''old'', ''legacy'', ''deprecated'', ''unused'',
      ''admin'', ''root'', ''password'', ''secret'', ''key'', ''token'',
      ''debug'', ''dev'', ''development'', ''local'', ''private'']"

definition popular_packages :: "string list" where
  "popular_packages =
     [''lodash'', ''express'', ''react'', ''vue'', ''angular'', ''jquery'',
      ''axios'', ''moment'', ''bootstrap'', ''webpack'', ''babel'']"

text \<open>\<^verbatim>\<open>NPMChecker._is_potentially_vulnerable_package\<close>: each \<^verbatim>\<open>for\<close> loop returns
  True at its first hit, which is \<^const>\<open>list_ex\<close>.\<close>

definition is_potentially_vulnerable_package :: "string \<Rightarrow> bool" where
  "is_potentially_vulnerable_package package_name =
     (let package_lower = py_lower package_name in
      if list_ex (\<lambda>pattern. py_in pattern package_lower) suspicious_patterns then True
      else if length package_name < 3 then True
      else if list_ex (\<lambda>popular. is_similar_name package_name popular) popular_packages
      then True
      else False)"


section \<open>The registry lookups of the npm checker (src/npm_checker.py)\<close>

text \<open>What one \<^verbatim>\<open>session.get(url)\<close> comes to: a response with its status and the
  result of \<^verbatim>\<open>await response.json()\<close>, or an exception (\<^const>\<open>TimeoutError\<close> for
  \<^verbatim>\<open>asyncio.TimeoutError\<close>).\<close>

datatype http_outcome =
    Response nat "py_error + json"
  | Raises py_error

text \<open>What a lookup does, in order: the sleep of the rate limit
  (\<^verbatim>\<open>60 / NPM_RATE_LIMIT\<close> seconds), a GET request for a name at an attempt number,
  the sleep before a retry with its number of seconds.\<close>

datatype event =
    RateLimitSleep
  | Request json nat
  | BackoffSleep nat

text \<open>The dictionary that \<^verbatim>\<open>_get_package_info\<close> builds from the body of a response of
  status 200. \<^verbatim>\<open>data.get\<close> and \<^verbatim>\<open>.keys()\<close> raise \<^verbatim>\<open>AttributeError\<close> on a value that
  is not a dictionary.\<close>

definition package_info_of :: "json \<Rightarrow> json \<Rightarrow> py_error + json" where
  "package_info_of package_name data =
     and_then (py_get data ''name'' package_name) (\<lambda>v_name.
     and_then (py_get data ''version'' (JString ''unknown'')) (\<lambda>v_version.
     and_then (py_get data ''description'' (JString [])) (\<lambda>v_description.
     and_then (py_get data ''homepage'' (JString [])) (\<lambda>v_homepage.
     and_then (py_get data ''repository'' (JObject [])) (\<lambda>v_repository.
     and_then (py_get data ''author'' (JObject [])) (\<lambda>v_author.
     and_then (py_get data ''license'' (JString [])) (\<lambda>v_license.
     and_then (py_get data ''keywords'' (JArray [])) (\<lambda>v_keywords.
     and_then (py_get data ''maintainers'' (JArray [])) (\<lambda>v_maintainers.
     and_then (py_get data ''time'' (JObject [])) (\<lambda>v_time.
     and_then (and_then (py_contains ''versions'' data) (\<lambda>present.
                 if present
                 then and_then (py_get data ''versions'' (JObject [])) (\<lambda>vs.
                        case vs of
                          JObject kvs \<Rightarrow> Inr (JArray (map (\<lambda>kv. JString (fst kv)) kvs))
                        | _ \<Rightarrow> Inl AttributeError)
                 else Inr (JArray []))) (\<lambda>v_versions.
       Inr (JObject
         [(''name'', v_name), (''version'', v_version), (''description'', v_description),
          (''homepage'', v_homepage), (''repository'', v_repository), (''author'', v_author),
          (''license'', v_license), (''keywords'', v_keywords),
          (''maintainers'', v_maintainers), (''time'', v_time),
          (''versions'', v_versions)]))))))))))))"

text \<open>The loop \<^verbatim>\<open>for attempt in range(MAX_RETRIES)\<close> of \<^verbatim>\<open>_get_package_info\<close>, over
  the attempts still to make. \<open>net attempt\<close> is what the request of that attempt comes
  to. Both exception handlers do the same but for the message they log: they sleep
  \<^verbatim>\<open>RETRY_DELAY * (BACKOFF_FACTOR ** attempt)\<close> seconds unless the attempt is the
  last, and the loop goes on. A response ends the lookup by a \<^verbatim>\<open>return\<close>, whatever
  its status. After the loop the function returns \<^verbatim>\<open>None\<close>.\<close>

fun get_package_info_loop ::
  "(nat \<Rightarrow> http_outcome) \<Rightarrow> json \<Rightarrow> nat list \<Rightarrow> event list \<Rightarrow> json option \<times> event list" where
  "get_package_info_loop net package_name [] trace = (None, trace)"
| "get_package_info_loop net package_name (attempt # rest) trace =
     (let trace1 = trace @ [Request package_name attempt];
          trace2 = (if attempt < MAX_RETRIES - 1
                    then trace1 @ [BackoffSleep (RETRY_DELAY * (BACKOFF_FACTOR ^ attempt))]
                    else trace1)
      in case net attempt of
           Response status body \<Rightarrow>
             if status = 200
             then (case and_then body (package_info_of package_name) of
                     Inr info \<Rightarrow> (Some info, trace1)
                   | Inl e \<Rightarrow> get_package_info_loop net package_name rest trace2)
             else if status = 404 then (None, trace1)
             else (None, trace1)
         | Raises e \<Rightarrow> get_package_info_loop net package_name rest trace2)"

text \<open>\<^verbatim>\<open>NPMChecker._get_package_info\<close>\<close>

definition get_package_info :: "(nat \<Rightarrow> http_outcome) \<Rightarrow> json \<Rightarrow> json option \<times> event list" where
  "get_package_info net package_name =
     get_package_info_loop net package_name [0..<MAX_RETRIES] []"

text \<open>The one entry that \<^verbatim>\<open>_get_package_vulnerabilities\<close> can report, a dictionary of
  strings.\<close>

definition potential_vulnerability :: "(string \<times> string) list" where
  "potential_vulnerability =
     [(''id'', ''potential_vulnerability''), (''severity'', ''medium''),
      (''title'', ''Potentially vulnerable package''),
      (''description'', ''Package name suggests potential security risk''),
      (''source'', ''heuristic_check'')]"

text \<open>\<^verbatim>\<open>NPMChecker._get_package_vulnerabilities\<close>: on a name that is not a string
  \<^verbatim>\<open>package_name.lower()\<close> raises, the handler logs, and the empty list is returned.\<close>

definition get_package_vulnerabilities :: "json \<Rightarrow> (string \<times> string) list list" where
  "get_package_vulnerabilities package_name =
     (case package_name of
        JString s \<Rightarrow> (if is_potentially_vulnerable_package s then [potential_vulnerability] else [])
      | _ \<Rightarrow> [])"

text \<open>The dictionary that \<^verbatim>\<open>_check_single_package_async\<close> returns: the package
  dictionary with the keys of the check added. The key \<^verbatim>\<open>package_info\<close> is set for a
  package that was found only; the time stamp \<^verbatim>\<open>last_checked\<close> is left out.\<close>

record checked_package = package +
  npm_status :: string
  is_unclaimed :: bool
  is_vulnerable :: bool
  vulnerabilities :: "(string \<times> string) list list"
  package_info :: "json option"

text \<open>\<^verbatim>\<open>NPMChecker._check_single_package_async\<close>, with the events of the task. The
  body is inside \<^verbatim>\<open>try ... except Exception\<close>, and none of its calls raises.\<close>

definition check_single_package ::
  "(nat \<Rightarrow> http_outcome) \<Rightarrow> package \<Rightarrow> checked_package option \<times> event list" where
  "check_single_package net pkg =
     (let package_name = name pkg in
      if \<not> truthy package_name then (None, [RateLimitSleep])
      else
        (case get_package_info net package_name of
           (None, trace) \<Rightarrow>
             (Some (package.extend pkg
                (checked_package.fields ''not_found'' True False [] None)),
              RateLimitSleep # trace)
         | (Some info, trace) \<Rightarrow>
             (let vulns = get_package_vulnerabilities package_name;
                  vulnerable = (length vulns > 0)
              in (Some (package.extend pkg
                    (checked_package.fields ''found'' False vulnerable vulns (Some info))),
                  RateLimitSleep # trace))))"

text \<open>\<^verbatim>\<open>NPMChecker.check_packages_async\<close>: one task for every package of the package
  manager npm, in the order of the input; \<open>net i\<close> answers the requests of task
  \<open>i\<close>. \<^verbatim>\<open>asyncio.gather\<close> returns the results in the order of the tasks, and the
  results that are not \<^verbatim>\<open>None\<close> are kept. The events of the tasks are listed task by
  task.\<close>

definition check_packages ::
  "(nat \<Rightarrow> nat \<Rightarrow> http_outcome) \<Rightarrow> package list \<Rightarrow> checked_package list \<times> event list" where
  "check_packages net packages =
     (let npm_packages = filter (\<lambda>pkg. package_manager pkg = ''npm'') packages in
      if npm_packages = [] then ([], [])
      else
        (let results = map (\<lambda>(i, pkg). check_single_package (net i) pkg)
                         (py_enumerate 0 npm_packages)
         in (concat (map (\<lambda>r. case fst r of None \<Rightarrow> [] | Some c \<Rightarrow> [c]) results),
             concat (map snd results))))"

text \<open>The names for which a lookup starts: the requests of attempt 0.\<close>

definition lookups :: "event list \<Rightarrow> json list" where
  "lookups trace =
     concat (map (\<lambda>ev. case ev of Request n a \<Rightarrow> (if a = 0 then [n] else []) | _ \<Rightarrow> []) trace)"


section \<open>The admission of lookups by the semaphore\<close>

text \<open>\<^verbatim>\<open>check_packages_async\<close> creates \<^verbatim>\<open>asyncio.Semaphore(MAX_CONCURRENT_NPM_CHECKS)\<close>
  and every task runs its body inside \<^verbatim>\<open>async with semaphore\<close>. A task is waiting
  before it has entered the block, in flight while it is inside (there it sleeps and
  looks the package up), and done after it has left.\<close>

datatype phase = Waiting | InFlight | Done

record scheduler =
  sem_value :: nat
  phases :: "phase list"

text \<open>The two steps of a task: entering the block takes a permit, which needs the
  counter of the semaphore to be positive; leaving it gives the permit back. Which of
  the waiting tasks enters next is left open, so every order of admission is a run of
  the model, the first-come order of \<^verbatim>\<open>asyncio\<close> among them.\<close>

datatype sched_event = Enter nat | Leave nat

fun sched_step :: "scheduler \<Rightarrow> sched_event \<Rightarrow> scheduler option" where
  "sched_step s (Enter i) =
     (if i < length (phases s) \<and> phases s ! i = Waiting \<and> 0 < sem_value s
      then Some \<lparr>sem_value = sem_value s - 1, phases = (phases s)[i := InFlight]\<rparr>
      else None)"
| "sched_step s (Leave i) =
     (if i < length (phases s) \<and> phases s ! i = InFlight
      then Some \<lparr>sem_value = sem_value s + 1, phases = (phases s)[i := Done]\<rparr>
      else None)"

fun sched_run :: "scheduler \<Rightarrow> sched_event list \<Rightarrow> scheduler option" where
  "sched_run s [] = Some s"
| "sched_run s (ev # evs) =
     (case sched_step s ev of None \<Rightarrow> None | Some s' \<Rightarrow> sched_run s' evs)"

definition sched_init :: "nat \<Rightarrow> scheduler" where
  "sched_init n = \<lparr>sem_value = MAX_CONCURRENT_NPM_CHECKS, phases = replicate n Waiting\<rparr>"

definition in_flight :: "scheduler \<Rightarrow> nat" where
  "in_flight s = length (filter (\<lambda>p. p = InFlight) (phases s))"


section \<open>The similarity rule as the specification words it\<close>

definition hamming_distance :: "string \<Rightarrow> string \<Rightarrow> nat" where
  "hamming_distance a b = card {i. i < length a \<and> i < length b \<and> a ! i \<noteq> b ! i}"

definition similar_spec :: "string \<Rightarrow> string \<Rightarrow> bool" where
  "similar_spec a b =
     (let d = (if length a \<le> length b then length b - length a else length a - length b)
      in if d > 2 then False
         else if d = 0 then hamming_distance a b \<le> 1
         else if d = 1 then (if length a < length b then subseq a b else subseq b a)
         else False)"


section \<open>Notions used to state the properties\<close>

subsection \<open>Lines and names of the parsers\<close>

text \<open>A line of requirements.txt that the extractor reads as a requirement: not blank
  and not a comment, after stripping.\<close>

definition requirement_line :: "string \<Rightarrow> bool" where
  "requirement_line raw = (py_strip raw \<noteq> [] \<and> \<not> py_startswith (py_strip raw) ''#'')"

text \<open>The operator at which \<^verbatim>\<open>_parse_pip_specification\<close> splits a stripped
  requirement: the first of its list, in the order of the list, that occurs in it.\<close>

definition split_operator :: "string \<Rightarrow> string option" where
  "split_operator s = find (\<lambda>op. py_in op s) pip_operators"

text \<open>A stripped requirement with a name part: it is not empty and it does not begin
  with the operator at which it is split.\<close>

definition has_name_part :: "string \<Rightarrow> bool" where
  "has_name_part s =
     (s \<noteq> [] \<and> (case split_operator s of None \<Rightarrow> True | Some op \<Rightarrow> \<not> py_startswith s op))"

text \<open>The name part of a line of pyproject.toml or Cargo.toml: what stands before its
  first equals sign, stripped of white space.\<close>

definition name_part :: "string \<Rightarrow> string" where
  "name_part line = py_strip (takeWhile (\<lambda>c. c \<noteq> CHR ''='') line)"

text \<open>The stripped lines that open a dependency section, in pyproject.toml and in
  Cargo.toml.\<close>

definition pyproject_section :: "string \<Rightarrow> bool" where
  "pyproject_section line =
     (py_startswith line ''[tool.poetry.dependencies]''
      \<or> py_startswith line ''[project.dependencies]'')"

definition cargo_section :: "string \<Rightarrow> bool" where
  "cargo_section line = py_startswith line ''[dependencies]''"

text \<open>The dependency lines of a file, stripped: the lines with an equals sign that are
  not comments, inside a dependency section, which a line recognised by \<open>opens\<close>
  opens and the next line that begins with a bracket closes. \<open>inside\<close> tells whether
  the first line is inside such a section.\<close>

fun dependency_lines :: "(string \<Rightarrow> bool) \<Rightarrow> bool \<Rightarrow> string list \<Rightarrow> string list" where
  "dependency_lines opens inside [] = []"
| "dependency_lines opens inside (raw # rest) =
     (if opens (py_strip raw) then dependency_lines opens True rest
      else if py_startswith (py_strip raw) ''['' \<and> inside then dependency_lines opens False rest
      else if inside \<and> CHR ''='' \<in> set (py_strip raw) \<and> \<not> py_startswith (py_strip raw) ''#''
      then py_strip raw # dependency_lines opens inside rest
      else dependency_lines opens inside rest)"

text \<open>A record with a name that is a non-empty string.\<close>

definition named :: "package \<Rightarrow> bool" where
  "named p = (\<exists>n. name p = JString n \<and> n \<noteq> [])"

text \<open>A value that is a non-empty string, and a value whose keys, if it is a
  dictionary, are all non-empty.\<close>

fun nonempty_string :: "json \<Rightarrow> bool" where
  "nonempty_string (JString s) = (s \<noteq> [])"
| "nonempty_string JNull = False"
| "nonempty_string (JBool b) = False"
| "nonempty_string (JInt i) = False"
| "nonempty_string (JFloat r) = False"
| "nonempty_string (JArray xs) = False"
| "nonempty_string (JObject kvs) = False"

fun keys_nonempty :: "json \<Rightarrow> bool" where
  "keys_nonempty (JObject kvs) = ([] \<notin> set (map fst kvs))"
| "keys_nonempty JNull = True"
| "keys_nonempty (JBool b) = True"
| "keys_nonempty (JInt i) = True"
| "keys_nonempty (JFloat r) = True"
| "keys_nonempty (JString s) = True"
| "keys_nonempty (JArray xs) = True"

text \<open>The names that a decoded package.json or composer.json carries are non-empty
  strings: the value of its key \<^verbatim>\<open>name\<close>, when it has one, is a non-empty string, and
  the value of each of the given dependency keys, when it has one, has no empty key.\<close>

definition json_names_nonempty :: "json \<Rightarrow> string list \<Rightarrow> bool" where
  "json_names_nonempty data deps_keys =
     ((case py_getitem data ''name'' of Inl e \<Rightarrow> True | Inr nm \<Rightarrow> nonempty_string nm)
      \<and> list_all (\<lambda>deps_key. case py_getitem data deps_key of
                                 Inl e \<Rightarrow> True
                               | Inr deps \<Rightarrow> keys_nonempty deps) deps_keys)"

text \<open>The library respects the regular expressions whose group becomes a name: the
  group of \<open>RE_gradle_string\<close>, of the four patterns of the scripts and of \<open>RE_name\<close>,
  and the first group of \<open>RE_gem\<close>, are each of the form \<^verbatim>\<open>[...]+\<close>, one character or
  more, so the text of the group is never empty.\<close>

definition groups_nonempty :: "'a stdlib_scheme \<Rightarrow> bool" where
  "groups_nonempty lib =
     ((\<forall>s. [] \<notin> set (re_findall lib RE_gradle_string s))
      \<and> (\<forall>pattern \<in> set script_patterns. \<forall>s. [] \<notin> set (re_findall lib pattern s))
      \<and> (\<forall>s. re_search lib RE_name s \<noteq> Some [])
      \<and> (\<forall>s g2. re_match2 lib RE_gem s \<noteq> Some ([], g2)))"

subsection \<open>Traces of the lookups\<close>

text \<open>The events of \<open>k\<close> failed attempts, each followed by its sleep of
  \<^verbatim>\<open>RETRY_DELAY * (BACKOFF_FACTOR ** attempt)\<close> seconds.\<close>

definition retry_trace :: "json \<Rightarrow> nat \<Rightarrow> event list" where
  "retry_trace nm k =
     concat (map (\<lambda>a. [Request nm a, BackoffSleep (RETRY_DELAY * BACKOFF_FACTOR ^ a)]) [0..<k])"

text \<open>An attempt of a lookup that fails: the request raises an exception (a transport
  failure or a timeout), or the response has the status 200 and reading its body into
  the dictionary of the package raises. These are the attempts that reach one of the
  two handlers of \<^verbatim>\<open>_get_package_info\<close>.\<close>

definition attempt_fails :: "json \<Rightarrow> http_outcome \<Rightarrow> bool" where
  "attempt_fails nm outcome =
     (case outcome of
        Raises e \<Rightarrow> True
      | Response status body \<Rightarrow> status = 200 \<and> isl (and_then body (package_info_of nm)))"

text \<open>A package dictionary that the checker looks up: it is of the package manager
  npm and its name is true as a Python value (here: a non-empty string).\<close>

definition npm_record :: "package \<Rightarrow> bool" where
  "npm_record pkg = (package_manager pkg = ''npm'' \<and> truthy (name pkg))"

section \<open>Example inputs\<close>

subsection \<open>Manifests\<close>

text \<open>A string between double quotes.\<close>

definition dq :: "string \<Rightarrow> string" where
  "dq s = CHR 0x22 # s @ [CHR 0x22]"

text \<open>The text of the package.json of the example: an object with the name x, the
  version 1.0.0 and the dependencies a and b.\<close>

definition example_package_json :: string where
  "example_package_json =
     ''{'' @ dq ''name'' @ '':'' @ dq ''x'' @ '','' @ dq ''version'' @ '':'' @ dq ''1.0.0''
     @ '','' @ dq ''dependencies'' @ '':{'' @ dq ''a'' @ '':'' @ dq ''^1.0.0''
     @ '','' @ dq ''b'' @ '':'' @ dq ''2.0.0'' @ ''}}''"

text \<open>The value that the text of the example denotes.\<close>

definition example_package_data :: json where
  "example_package_data =
     JObject [(''name'', JString ''x''), (''version'', JString ''1.0.0''),
              (''dependencies'', JObject [(''a'', JString ''^1.0.0''), (''b'', JString ''2.0.0'')])]"

text \<open>A Cargo.toml and a pyproject.toml with the same dependency line, whose key is
  written between double quotes.\<close>

definition example_cargo_toml :: string where
  "example_cargo_toml = ''[dependencies]'' @ [newline] @ dq ''serde'' @ '' = '' @ dq ''1.0''"

definition example_pyproject_toml :: string where
  "example_pyproject_toml =
     ''[project.dependencies]'' @ [newline] @ dq ''serde'' @ '' = '' @ dq ''1.0''"

text \<open>A Cargo.toml with a package section and one dependency, its key unquoted.\<close>

definition example_cargo_plain :: string where
  "example_cargo_plain =
     ''[package]'' @ [newline] @ ''name = '' @ [CHR 0x22] @ ''app'' @ [CHR 0x22] @ [newline]
     @ ''[dependencies]'' @ [newline] @ ''serde = '' @ [CHR 0x22] @ ''1.0'' @ [CHR 0x22]"

text \<open>A dependency section whose only line has nothing before its equals sign.\<close>

definition example_empty_key :: string where
  "example_empty_key = ''[dependencies]'' @ [newline] @ ''= 1.0''"

definition example_empty_key_pyproject :: string where
  "example_empty_key_pyproject = ''[project.dependencies]'' @ [newline] @ ''= 1.0''"

text \<open>A requirements.txt of two lines: one with an operator at its beginning, which
  is split at the operator \<^verbatim>\<open>==\<close> further on, and one that begins with the operator
  at which it is split.\<close>

definition example_requirements_operators :: string where
  "example_requirements_operators = ''>x==1'' @ [newline] @ ''==1.0''"

text \<open>A build.gradle, a Gemfile and a setup.py with one dependency each, and a
  setup.py whose requirement begins with an operator.\<close>

definition example_gradle :: string where
  "example_gradle = ''api '' @ dq ''g:a:1''"

definition example_gemfile :: string where
  "example_gemfile = ''gem '' @ dq ''rails''"

definition example_setup_py :: string where
  "example_setup_py = ''install_requires=['' @ dq ''flask>=2'' @ '']''"

definition example_setup_py_operator :: string where
  "example_setup_py_operator = ''install_requires=['' @ dq ''==1.0'' @ '']''"

text \<open>Three JSON texts: an object with the name app, an object whose dependencies have
  the empty string as a key, and an object whose name is the empty string.\<close>

definition example_json_named :: string where
  "example_json_named = ''{'' @ dq ''name'' @ '':'' @ dq ''app'' @ ''}''"

definition example_json_empty_key :: string where
  "example_json_empty_key =
     ''{'' @ dq ''dependencies'' @ '':{'' @ dq '''' @ '':'' @ dq ''1.0'' @ ''}}''"

definition example_json_empty_name :: string where
  "example_json_empty_name = ''{'' @ dq ''name'' @ '':'' @ dq '''' @ ''}''"

subsection \<open>Library, file system, registry and scheduler\<close>

text \<open>A library that decodes the text of the example, reports every other text as
  malformed JSON and malformed XML, and whose regular expressions match nothing.\<close>

definition example_lib :: stdlib where
  "example_lib =
     \<lparr>json_loads = (\<lambda>s. if s = example_package_json then Inr example_package_data
                         else Inl JSONDecodeError),
      ET_fromstring = (\<lambda>s. Inl ParseError),
      re_search = (\<lambda>pattern s. None),
      re_findall = (\<lambda>pattern s. []),
      re_findall3 = (\<lambda>pattern s. []),
      re_match2 = (\<lambda>pattern s. None)\<rparr>"

text \<open>A library that decodes the three JSON texts above to the values they denote
  and whose regular expressions match in the examples above as those of Python do:
  the quoted string of the build.gradle, the gem of the Gemfile, the text between the
  brackets of \<^verbatim>\<open>install_requires\<close> and the quoted string in it.\<close>

definition example_names_lib :: stdlib where
  "example_names_lib =
     \<lparr>json_loads = (\<lambda>s.
        if s = example_json_named then Inr (JObject [(''name'', JString ''app'')])
        else if s = example_json_empty_key
        then Inr (JObject [(''dependencies'', JObject [('''', JString ''1.0'')])])
        else if s = example_json_empty_name then Inr (JObject [(''name'', JString '''')])
        else Inl JSONDecodeError),
      ET_fromstring = (\<lambda>s. Inl ParseError),
      re_search = (\<lambda>pattern s.
        if pattern = RE_install_requires \<and> s = example_setup_py then Some (dq ''flask>=2'')
        else if pattern = RE_install_requires \<and> s = example_setup_py_operator
        then Some (dq ''==1.0'')
        else None),
      re_findall = (\<lambda>pattern s.
        if pattern = RE_gradle_string \<and> s = example_gradle then [''g:a:1'']
        else if pattern = RE_quoted \<and> s = dq ''flask>=2'' then [''flask>=2'']
        else if pattern = RE_quoted \<and> s = dq ''==1.0'' then [''==1.0'']
        else []),
      re_findall3 = (\<lambda>pattern s. []),
      re_match2 = (\<lambda>pattern s.
        if pattern = RE_gem \<and> s = example_gemfile then Some (''rails'', None) else None)\<rparr>"

text \<open>A directory with a package.json that is cut off after its first brace and a
  requirements.txt of one line.\<close>

definition example_fs :: filesystem where
  "example_fs =
     \<lparr>read_text = (\<lambda>p. if p = ''repo/package.json'' then Inr ''{''
                        else if p = ''repo/requirements.txt'' then Inr ''flask''
                        else Inl (OtherError ''No such file'')),
      glob = (\<lambda>directory pattern.
                if directory = ''repo'' \<and> pattern = ''**/package.json''
                then Inr [''repo/package.json'']
                else if directory = ''repo'' \<and> pattern = ''**/requirements.txt''
                then Inr [''repo/requirements.txt'']
                else Inr []),
      is_file = (\<lambda>p. True)\<rparr>"

text \<open>A dependency entry as the npm extractor emits it.\<close>

definition example_package :: package where
  "example_package =
     \<lparr>name = JString ''left-pad'', version = JString ''^1.3.0'', type = ''dependency'',
      category = ''dependencies'', package_manager = ''npm'',
      file_path = ''app/package.json'', source = ''package.json''\<rparr>"

text \<open>A registry whose first request times out and which answers 503 afterwards.\<close>

definition flaky_then_503 :: "nat \<Rightarrow> http_outcome" where
  "flaky_then_503 attempt =
     (if attempt = 0 then Raises TimeoutError else Response 503 (Inl JSONDecodeError))"

text \<open>A registry whose first request times out and which answers 200 afterwards, with
  a body that names the package.\<close>

definition flaky_then_200 :: "nat \<Rightarrow> http_outcome" where
  "flaky_then_200 attempt =
     (if attempt = 0 then Raises TimeoutError
      else Response 200 (Inr (JObject [(''name'', JString ''left-pad'')])))"

text \<open>The scheduler of a hundred tasks after the first ten have entered.\<close>

definition ten_admitted :: scheduler where
  "ten_admitted = \<lparr>sem_value = 0, phases = replicate 10 InFlight @ replicate 90 Waiting\<rparr>"


section \<open>Properties of the string operations\<close>

lemma py_find_sound:
  "py_find sub s = Some i \<Longrightarrow> take (length sub) (drop i s) = sub \<and> i + length sub \<le> length s"
proof (induction s arbitrary: i)
  case Nil
  then show ?case by (simp split: if_splits)
next
  case (Cons c cs)
  show ?case
  proof (cases "take (length sub) (c # cs) = sub")
    case True
    with Cons.prems have "i = 0" by simp
    moreover have "length sub \<le> length (c # cs)"
    proof -
      from True have "length (take (length sub) (c # cs)) = length sub" by simp
      then show ?thesis by (simp split: if_splits)
    qed
    ultimately show ?thesis using True by simp
  next
    case False
    with Cons.prems obtain k where k: "py_find sub cs = Some k" "i = Suc k"
      by auto
    from Cons.IH [OF k(1)] k(2) show ?thesis by simp
  qed
qed

lemma py_in_iff_sublist: "py_in sub s \<longleftrightarrow> sublist sub s"
proof (induction s)
  case Nil
  then show ?case by (auto simp: py_in_def)
next
  case (Cons c cs)
  have "take (length sub) (c # cs) = sub \<longleftrightarrow> prefix sub (c # cs)"
    by (metis append_take_drop_id prefix_def append_eq_conv_conj prefixE)
  with Cons show ?case
    by (auto simp: py_in_def sublist_Cons_right)
qed


section \<open>The risk check: similarity and the order of the rules\<close>

lemma index_set_Suc:
  "{i. i < Suc n \<and> P i} = (if P 0 then {0} else {}) \<union> Suc ` {i. i < n \<and> P (Suc i)}"
proof -
  have "\<And>i. i < Suc n \<and> P i \<longleftrightarrow> (i = 0 \<and> P 0) \<or> (\<exists>k. i = Suc k \<and> k < n \<and> P (Suc k))"
    by (case_tac i) auto
  then show ?thesis by (auto simp: image_iff)
qed

lemma differences_hamming:
  "length a = length b \<Longrightarrow> differences a b = hamming_distance a b"
proof (induction a b rule: list_induct2)
  case Nil
  then show ?case by (simp add: differences_def hamming_distance_def)
next
  case (Cons x xs y ys)
  let ?S = "{i. i < length xs \<and> xs ! i \<noteq> ys ! i}"
  have fin: "finite ?S" by simp
  have set_eq: "{i. i < length (x # xs) \<and> i < length (y # ys) \<and> (x # xs) ! i \<noteq> (y # ys) ! i}
      = (if x \<noteq> y then {0} else {}) \<union> Suc ` ?S"
    using Cons.hyps index_set_Suc [of "length xs" "\<lambda>i. (x # xs) ! i \<noteq> (y # ys) ! i"]
    by simp
  have "card ((if x \<noteq> y then {0} else {}) \<union> Suc ` ?S) = (if x \<noteq> y then 1 else 0) + card ?S"
    using fin by (auto simp: card_insert_if card_image)
  with set_eq Cons.IH Cons.hyps show ?case
    by (simp add: differences_def hamming_distance_def)
qed

lemma differences_sym: "differences a b = differences b a"
proof (induction a arbitrary: b)
  case Nil
  then show ?case by (simp add: differences_def)
next
  case (Cons x xs)
  then show ?case by (cases b) (auto simp: differences_def)
qed

text \<open>The two-index loop decides the subsequence relation between the parts of the
  two names that it has not read yet.\<close>

lemma subsequence_loop_subseq:
  "i \<le> length s \<Longrightarrow>
     (subsequence_loop s l i j = length s) \<longleftrightarrow> subseq (drop i s) (drop j l)"
proof (induction s l i j rule: subsequence_loop.induct)
  case (1 shorter longer i j)
  show ?case
  proof (cases "i < length shorter \<and> j < length longer")
    case True
    then have ds: "drop i shorter = shorter ! i # drop (Suc i) shorter"
      and dl: "drop j longer = longer ! j # drop (Suc j) longer"
      by (simp_all add: Cons_nth_drop_Suc)
    show ?thesis
    proof (cases "shorter ! i = longer ! j")
      case eq: True
      with True "1.IH"(1) have "(subsequence_loop shorter longer (i + 1) (j + 1) = length shorter)
          \<longleftrightarrow> subseq (drop (i + 1) shorter) (drop (j + 1) longer)"
        by simp
      with True eq ds dl show ?thesis
        by (subst subsequence_loop.simps) simp
    next
      case neq: False
      with True "1.IH"(2) "1.prems" have "(subsequence_loop shorter longer i (j + 1) = length shorter)
          \<longleftrightarrow> subseq (drop i shorter) (drop (j + 1) longer)"
        by simp
      with True neq ds dl show ?thesis
        by (subst subsequence_loop.simps) simp
    qed
  next
    case False
    then have res: "subsequence_loop shorter longer i j = i"
      by (subst subsequence_loop.simps) auto
    show ?thesis
    proof (cases "i < length shorter")
      case True
      with False have "drop j longer = []" by simp
      moreover from True have "drop i shorter \<noteq> []" by simp
      ultimately show ?thesis using res True by simp
    next
      case False
      with "1.prems" have "i = length shorter" by simp
      with res show ?thesis by simp
    qed
  qed
qed

lemma is_similar_name_spec: "is_similar_name a b = similar_spec a b"
proof -
  consider "length a = length b" | "length a < length b" | "length b < length a"
    by linarith
  then show ?thesis
  proof cases
    case 1
    then show ?thesis
      by (simp add: is_similar_name_def similar_spec_def differences_hamming)
  next
    case 2
    then show ?thesis
      using subsequence_loop_subseq [of 0 a b 0]
      by (auto simp: is_similar_name_def similar_spec_def Let_def)
  next
    case 3
    then show ?thesis
      using subsequence_loop_subseq [of 0 b a 0]
      by (auto simp: is_similar_name_def similar_spec_def Let_def)
  qed
qed

text \<open>
  Claim C4. The risk check of a package name applies its rules in order, and the first
  rule that holds makes the name suspicious: the lower-cased name contains one of the
  fixed suspicious keywords; or the name has fewer than three characters; or the name
  is similar to one of the fixed popular package names, where two names are similar
  as follows: never when their lengths differ by more than two; when the lengths are
  equal, exactly when the Hamming distance is at most one; when the lengths differ by
  one, exactly when the shorter name is a subsequence of the longer one; never when
  the lengths differ by two. A name that meets no rule is not suspicious. The names
  lodah, expres and ab are suspicious, and completely-unrelated-package-name is not.
\<close>

theorem risk_scorer_rules:
  "(\<forall>nm. is_potentially_vulnerable_package nm \<longleftrightarrow>
       (\<exists>k \<in> set suspicious_patterns. sublist k (py_lower nm))
       \<or> length nm < 3
       \<or> (\<exists>p \<in> set popular_packages. similar_spec nm p))
   \<and> is_potentially_vulnerable_package ''lodah''
   \<and> is_potentially_vulnerable_package ''expres''
   \<and> is_potentially_vulnerable_package ''ab''
   \<and> \<not> is_potentially_vulnerable_package ''completely-unrelated-package-name''"
proof -
  have rules: "is_potentially_vulnerable_package nm \<longleftrightarrow>
       (\<exists>k \<in> set suspicious_patterns. sublist k (py_lower nm))
       \<or> length nm < 3
       \<or> (\<exists>p \<in> set popular_packages. similar_spec nm p)" for nm
    by (auto simp: is_potentially_vulnerable_package_def Let_def list_ex_iff
        py_in_iff_sublist is_similar_name_spec)
  have e1: "is_potentially_vulnerable_package ''lodah''" by code_simp
  have e2: "is_potentially_vulnerable_package ''expres''" by code_simp
  have e3: "is_potentially_vulnerable_package ''ab''" by code_simp
  have e4: "\<not> is_potentially_vulnerable_package ''completely-unrelated-package-name''"
    by code_simp
  from rules e1 e2 e3 e4 show ?thesis by blast
qed

theorem risk_scorer_rules_witness:
  "\<exists>p \<in> set popular_packages. similar_spec ''lodah'' p"
proof -
  have k: "\<not> (\<exists>k \<in> set suspicious_patterns. sublist k (py_lower ''lodah''))"
    by code_simp
  have l: "\<not> length ''lodah'' < 3" by simp
  from risk_scorer_rules have
    "is_potentially_vulnerable_package ''lodah''"
    "is_potentially_vulnerable_package ''lodah'' \<longleftrightarrow>
       (\<exists>k \<in> set suspicious_patterns. sublist k (py_lower ''lodah''))
       \<or> length ''lodah'' < 3
       \<or> (\<exists>p \<in> set popular_packages. similar_spec ''lodah'' p)"
    by blast+
  with k l show ?thesis by blast
qed

text \<open>
  Claim C10. The similarity test of two names is symmetric: the test of a against b
  gives the same answer as the test of b against a, for all strings a and b.
\<close>

theorem is_similar_name_symmetric: "is_similar_name a b = is_similar_name b a"
proof -
  consider "length a = length b" | "length a < length b" | "length b < length a"
    by linarith
  then show ?thesis
  proof cases
    case 1
    then show ?thesis
      using differences_sym [of a b] by (simp add: is_similar_name_def)
  next
    case 2
    then show ?thesis
      by (auto simp: is_similar_name_def Let_def)
  next
    case 3
    then show ?thesis
      by (auto simp: is_similar_name_def Let_def)
  qed
qed

theorem is_similar_name_symmetric_witness:
  "is_similar_name ''expres'' ''express'' \<and> is_similar_name ''express'' ''expres''"
proof -
  have a: "is_similar_name ''expres'' ''express''" by code_simp
  with is_similar_name_symmetric [of "''expres''" "''express''"] show ?thesis by simp
qed

section \<open>Splitting a requirement at its operator\<close>


lemma py_find_split:
  "py_find sub s = Some i \<Longrightarrow> s = take i s @ sub @ drop (i + length sub) s"
proof -
  assume a: "py_find sub s = Some i"
  from py_find_sound [OF a] have "take (length sub) (drop i s) = sub" by simp
  then have "drop i s = sub @ drop (length sub) (drop i s)"
    by (metis append_take_drop_id)
  then have "drop i s = sub @ drop (i + length sub) s"
    by (simp add: add.commute)
  then show ?thesis by (metis append_take_drop_id)
qed

lemma take_eq_prefix: "take (length sub) s = sub \<longleftrightarrow> prefix sub s"
  by (metis append_take_drop_id prefix_def append_eq_conv_conj prefixE)

lemma py_find_first:
  "sub \<noteq> [] \<Longrightarrow> py_find sub s = Some i \<Longrightarrow> \<not> sublist sub (take i s @ butlast sub)"
proof (induction s arbitrary: i)
  case Nil
  then show ?case by (simp split: if_splits)
next
  case (Cons c cs)
  show ?case
  proof (cases "take (length sub) (c # cs) = sub")
    case True
    with Cons.prems have "i = 0" by simp
    moreover have "\<not> sublist sub (butlast sub)"
    proof
      assume "sublist sub (butlast sub)"
      then have "length sub \<le> length (butlast sub)" by (rule sublist_length_le)
      with Cons.prems(1) show False by (cases sub rule: rev_cases) auto
    qed
    ultimately show ?thesis by simp
  next
    case False
    with Cons.prems obtain k where k: "py_find sub cs = Some k" "i = Suc k"
      by auto
    have ih: "\<not> sublist sub (take k cs @ butlast sub)"
      using Cons.IH [OF Cons.prems(1) k(1)] .
    have "\<not> prefix sub (c # take k cs @ butlast sub)"
    proof
      assume p: "prefix sub (c # take k cs @ butlast sub)"
      have "cs = take k cs @ sub @ drop (k + length sub) cs"
        using py_find_split [OF k(1)] .
      then have "prefix (take k cs @ butlast sub) cs"
        by (metis prefix_def append.assoc append_butlast_last_id Cons.prems(1))
      then have "prefix (c # take k cs @ butlast sub) (c # cs)" by simp
      with p have "prefix sub (c # cs)" by (rule prefix_order.trans)
      with False show False by (simp add: take_eq_prefix)
    qed
    with ih k(2) show ?thesis by (simp add: sublist_Cons_right)
  qed
qed

lemma py_split1_in:
  "py_in op s \<Longrightarrow> \<exists>i. py_find op s = Some i \<and> py_split1 op s = [take i s, drop (i + length op) s]"
  by (auto simp: py_in_def py_split1_def)

lemma parse_pip_loop_spec:
  "[] \<notin> set ops \<Longrightarrow>
   (case find (\<lambda>op. sublist op s) ops of
      None \<Rightarrow> parse_pip_loop ops s = Inr (s, ''unknown'')
    | Some op \<Rightarrow> \<exists>pre post. s = pre @ op @ post \<and> \<not> sublist op (pre @ butlast op)
         \<and> parse_pip_loop ops s = Inr (py_strip pre, op @ py_strip post))"
proof (induction ops)
  case Nil
  then show ?case by simp
next
  case (Cons op ops)
  show ?case
  proof (cases "sublist op s")
    case True
    then have "py_in op s" by (simp add: py_in_iff_sublist)
    from py_split1_in [OF this] obtain i where
      i: "py_find op s = Some i" "py_split1 op s = [take i s, drop (i + length op) s]"
      by blast
    from Cons.prems have ne: "op \<noteq> []" by auto
    have "s = take i s @ op @ drop (i + length op) s" using py_find_split [OF i(1)] .
    moreover have "\<not> sublist op (take i s @ butlast op)" using py_find_first [OF ne i(1)] .
    moreover have "parse_pip_loop (op # ops) s = Inr (py_strip (take i s), op @ py_strip (drop (i + length op) s))"
      using \<open>py_in op s\<close> i(2) by simp
    ultimately show ?thesis using True by auto
  next
    case False
    then have "\<not> py_in op s" by (simp add: py_in_iff_sublist)
    with False Cons show ?thesis by (auto split: option.splits)
  qed
qed

section \<open>Stripping\<close>


lemma strip_gen_hd:
  assumes "rev (dropWhile P (rev (dropWhile P s))) = x # xs"
  shows "\<not> P x"
proof -
  let ?t = "dropWhile P s"
  let ?u = "dropWhile P (rev ?t)"
  from assms have u: "?u = rev xs @ [x]" by (metis rev.simps(2) rev_rev_ident)
  have "rev ?t = takeWhile P (rev ?t) @ ?u" by simp
  with u have "rev ?t = takeWhile P (rev ?t) @ rev xs @ [x]" by simp
  then have "?t = x # xs @ rev (takeWhile P (rev ?t))"
    by (metis append_Cons append_Nil rev.simps(2) rev_append rev_rev_ident)
  then have "?t \<noteq> []" "hd ?t = x" by (metis list.distinct(1), metis list.sel(1))
  then show ?thesis using hd_dropWhile [of P s] by auto
qed

lemma strip_gen_last:
  assumes "rev (dropWhile P (rev (dropWhile P s))) = t" "t \<noteq> []"
  shows "\<not> P (last t)"
proof -
  let ?u = "dropWhile P (rev (dropWhile P s))"
  from assms have "?u \<noteq> []" "last t = hd ?u" by (auto simp: last_rev)
  then show ?thesis using hd_dropWhile [of P "rev (dropWhile P s)"] by auto
qed

lemma strip_gen_fixed:
  assumes "t \<noteq> []" "\<not> P (hd t)" "\<not> P (last t)"
  shows "rev (dropWhile P (rev (dropWhile P t))) = t"
proof -
  from assms have "dropWhile P t = t" by (cases t) auto
  moreover from assms have "dropWhile P (rev t) = rev t"
    by (cases t rule: rev_cases) auto
  ultimately show ?thesis by simp
qed

lemma strip_gen_nonempty:
  assumes "\<not> P x"
  shows "rev (dropWhile P (rev (dropWhile P (x # xs)))) \<noteq> []"
proof -
  from assms have "dropWhile P (x # xs) = x # xs" by simp
  moreover have "dropWhile P (rev (x # xs)) \<noteq> []"
    using assms by (simp add: dropWhile_eq_Nil_conv) 
  ultimately show ?thesis by simp
qed

lemma py_strip_hd: "py_strip s = x # xs \<Longrightarrow> \<not> py_isspace x"
  unfolding py_strip_def by (rule strip_gen_hd)

lemma py_strip_nonempty: "\<not> py_isspace x \<Longrightarrow> py_strip (x # xs) \<noteq> []"
  unfolding py_strip_def by (rule strip_gen_nonempty)

lemma py_strip_idem: "py_strip (py_strip s) = py_strip s"
proof (cases "py_strip s")
  case Nil
  have "py_strip [] = []" by (simp add: py_strip_def)
  with Nil show ?thesis by simp
next
  case (Cons x xs)
  then have ne: "py_strip s \<noteq> []" by simp
  have h: "\<not> py_isspace (hd (py_strip s))" using py_strip_hd [OF Cons] Cons by simp
  have l: "\<not> py_isspace (last (py_strip s))"
    using strip_gen_last [of py_isspace s "py_strip s"] ne by (simp add: py_strip_def)
  from strip_gen_fixed [OF ne h l] show ?thesis by (simp add: py_strip_def)
qed

lemma parse_pip_specification_total:
  "\<exists>nm ver. parse_pip_specification spec = Inr (nm, ver)"
  using parse_pip_loop_spec [of pip_operators "py_strip spec"]
  by (auto simp: parse_pip_specification_def pip_operators_def split: option.splits if_splits)

lemma map_snd_py_enumerate: "map snd (py_enumerate i xs) = xs"
  by (induction xs arbitrary: i) auto

section \<open>The requirements.txt parser\<close>

lemma requirements_example:
  "extract_requirements_txt (''requests==2.28.0'' @ [newline] @ ''flask'') fp
     = Inr [\<lparr>name = JString ''requests'', version = JString ''==2.28.0'', type = ''dependency'',
              category = ''requirements'', package_manager = ''pip'', file_path = fp,
              source = ''requirements.txt:line_1''\<rparr>,
            \<lparr>name = JString ''flask'', version = JString ''unknown'', type = ''dependency'',
              category = ''requirements'', package_manager = ''pip'', file_path = fp,
              source = ''requirements.txt:line_2''\<rparr>]"
proof -
  have a: "parse_pip_specification ''requests==2.28.0'' = Inr (''requests'', ''==2.28.0'')"
    by code_simp
  have b: "parse_pip_specification ''flask'' = Inr (''flask'', ''unknown'')"
    by code_simp
  have s1: "py_strip ''requests==2.28.0'' = ''requests==2.28.0''" by code_simp
  have s2: "py_strip ''flask'' = ''flask''" by code_simp
  have n1: "''requirements.txt:line_'' @ py_str_nat 1 = ''requirements.txt:line_1''" by code_simp
  have n2: "''requirements.txt:line_'' @ py_str_nat 2 = ''requirements.txt:line_2''" by code_simp
  have sp: "py_enumerate 1 (py_split_char newline (''requests==2.28.0'' @ [newline] @ ''flask''))
      = [(1, ''requests==2.28.0''), (2, ''flask'')]" by code_simp
  have st1: "requirements_step fp (1, ''requests==2.28.0'') ps
     = Inr (ps @ [\<lparr>name = JString ''requests'', version = JString ''==2.28.0'', type = ''dependency'',
                     category = ''requirements'', package_manager = ''pip'',
                     file_path = fp,
                     source = ''requirements.txt:line_1''\<rparr>])" for ps
    unfolding requirements_step_def Let_def fst_conv snd_conv s1 a n1
    by (simp add: py_startswith_def)
  have st2: "requirements_step fp (2, ''flask'') ps
     = Inr (ps @ [\<lparr>name = JString ''flask'', version = JString ''unknown'', type = ''dependency'',
                     category = ''requirements'', package_manager = ''pip'',
                     file_path = fp,
                     source = ''requirements.txt:line_2''\<rparr>])" for ps
    unfolding requirements_step_def Let_def fst_conv snd_conv s2 b n2
    by (simp add: py_startswith_def)
  show ?thesis
    unfolding extract_requirements_txt_def sp
    by (simp only: requirements_loop.simps st1 st2 sum.case append_Nil append_Cons)
qed

text \<open>
  Claim C5. The pip specification parser looks for the operators ==, >=, <=, >, <, ~=, !=
  in this order; at the first of them that occurs in the stripped line it splits the
  line at the first occurrence of that operator, into the name (the stripped part
  before it) and the version (the operator followed by the stripped part after it);
  when no operator occurs the version is "unknown" and the name is the stripped line.
  The line requests==2.28.0 yields the name requests with the version ==2.28.0, and
  the line flask yields the name flask with the version unknown.
\<close>

theorem pip_specification_first_operator:
  "(case find (\<lambda>op. sublist op (py_strip line)) pip_operators of
      None \<Rightarrow> parse_pip_specification line = Inr (py_strip line, ''unknown'')
    | Some op \<Rightarrow>
        \<exists>pre post. py_strip line = pre @ op @ post
          \<and> \<not> sublist op (pre @ butlast op)
          \<and> parse_pip_specification line = Inr (py_strip pre, op @ py_strip post))
   \<and> pip_operators = [''=='', ''>='', ''<='', ''>'', ''<'', ''~='', ''!='']
   \<and> extract_requirements_txt (''requests==2.28.0'' @ [newline] @ ''flask'') fp
       = Inr [\<lparr>name = JString ''requests'', version = JString ''==2.28.0'',
                type = ''dependency'', category = ''requirements'', package_manager = ''pip'',
                file_path = fp, source = ''requirements.txt:line_1''\<rparr>,
              \<lparr>name = JString ''flask'', version = JString ''unknown'',
                type = ''dependency'', category = ''requirements'', package_manager = ''pip'',
                file_path = fp, source = ''requirements.txt:line_2''\<rparr>]"
proof -
  have ops: "[] \<notin> set pip_operators" by (simp add: pip_operators_def)
  have "case find (\<lambda>op. sublist op (py_strip line)) pip_operators of
      None \<Rightarrow> parse_pip_specification line = Inr (py_strip line, ''unknown'')
    | Some op \<Rightarrow>
        \<exists>pre post. py_strip line = pre @ op @ post
          \<and> \<not> sublist op (pre @ butlast op)
          \<and> parse_pip_specification line = Inr (py_strip pre, op @ py_strip post)"
    unfolding parse_pip_specification_def
    by (rule parse_pip_loop_spec [OF ops])
  moreover have "pip_operators = [''=='', ''>='', ''<='', ''>'', ''<'', ''~='', ''!='']"
    by (rule pip_operators_def)
  ultimately show ?thesis using requirements_example by blast
qed


theorem pip_specification_first_operator_witness:
  "\<exists>pre post. ''numpy >= 1.0,==2'' = pre @ ''=='' @ post
     \<and> \<not> sublist ''=='' (pre @ butlast ''=='')
     \<and> parse_pip_specification '' numpy >= 1.0,==2'' = Inr (py_strip pre, ''=='' @ py_strip post)"
proof -
  have s: "py_strip '' numpy >= 1.0,==2'' = ''numpy >= 1.0,==2''" by code_simp
  have f: "find (\<lambda>op. sublist op ''numpy >= 1.0,==2'') pip_operators = Some ''==''"
    by code_simp
  from pip_specification_first_operator [of "'' numpy >= 1.0,==2''"]
  have "case find (\<lambda>op. sublist op (py_strip '' numpy >= 1.0,==2'')) pip_operators of
      None \<Rightarrow> parse_pip_specification '' numpy >= 1.0,==2'' = Inr (py_strip '' numpy >= 1.0,==2'', ''unknown'')
    | Some op \<Rightarrow>
        \<exists>pre post. py_strip '' numpy >= 1.0,==2'' = pre @ op @ post
          \<and> \<not> sublist op (pre @ butlast op)
          \<and> parse_pip_specification '' numpy >= 1.0,==2'' = Inr (py_strip pre, op @ py_strip post)"
    by (rule conjunct1)
  then show ?thesis unfolding s f option.case .
qed

section \<open>Names of the records of the parsers\<close>

subsection \<open>pom.xml, go.mod, the NuGet files, build.gradle and Gemfile\<close>

lemma maven_name_named: "\<exists>n. maven_name g a = JString n \<and> n \<noteq> []"
  by (simp add: maven_name_def)

lemma maven_main_named: "list_all named (maven_main doc fp)"
  using maven_name_named
  by (simp add: maven_main_def Let_def named_def split: option.splits)

lemma maven_dependency_named: "list_all named (maven_dependency fp dep)"
  using maven_name_named
  by (simp add: maven_dependency_def Let_def named_def split: option.splits)

lemma list_all_concat_map: "(\<And>x. list_all P (f x)) \<Longrightarrow> list_all P (concat (map f xs))"
  by (induction xs) simp_all

lemma maven_named: "list_all named (extract_maven_packages lib content fp)"
  by (simp add: extract_maven_packages_def maven_main_named maven_dependency_named
      list_all_concat_map split: sum.splits)

lemma py_split_ws_aux_nonempty: "\<forall>t \<in> set (py_split_ws_aux tok s). t \<noteq> []"
  by (induction s arbitrary: tok) auto

lemma py_split_ws_nth: "i < length (py_split_ws s) \<Longrightarrow> py_split_ws s ! i \<noteq> []"
  using py_split_ws_aux_nonempty [of "[]" s] by (simp add: py_split_ws_def)

lemma go_step_named: "list_all named packages \<Longrightarrow> list_all named (go_step fp numbered packages)"
  using py_split_ws_nth [of 1 "py_strip (snd numbered)"]
  by (simp add: go_step_def Let_def named_def)

lemma go_loop_named: "list_all named packages \<Longrightarrow> list_all named (go_loop fp nls packages)"
  by (induction nls arbitrary: packages) (simp_all add: go_step_named)

lemma go_named: "list_all named (extract_go_packages content fp)"
  by (simp add: extract_go_packages_def go_loop_named)

lemma nuget_entry_named: "list_all named (nuget_entry fp cat src i v)"
  by (simp add: nuget_entry_def named_def split: option.splits)

lemma packages_config_named:
  "extract_packages_config lib content fp = Inr ps \<Longrightarrow> list_all named ps"
  by (auto simp: extract_packages_config_def nuget_entry_named list_all_concat_map
      split: sum.splits if_splits)

lemma csproj_named:
  "extract_csproj_packages lib content fp = Inr ps \<Longrightarrow> list_all named ps"
  by (auto simp: extract_csproj_packages_def nuget_entry_named list_all_concat_map
      split: sum.splits if_splits)

lemma nuget_named: "list_all named (extract_nuget_packages lib content fp)"
  using packages_config_named csproj_named
  by (auto simp: extract_nuget_packages_def split: sum.splits)

lemma gradle_named:
  "groups_nonempty lib \<Longrightarrow> list_all named (extract_gradle_packages lib content fp)"
  by (auto simp: extract_gradle_packages_def groups_nonempty_def list_all_iff named_def)

lemma ruby_step_named:
  "groups_nonempty lib \<Longrightarrow> list_all named packages \<Longrightarrow>
   list_all named (ruby_step lib fp numbered packages)"
  by (auto simp: ruby_step_def Let_def named_def groups_nonempty_def split: option.splits)

lemma ruby_loop_named:
  "groups_nonempty lib \<Longrightarrow> list_all named packages \<Longrightarrow>
   list_all named (ruby_loop lib fp nls packages)"
  by (induction nls arbitrary: packages) (simp_all add: ruby_step_named)

lemma ruby_named:
  "groups_nonempty lib \<Longrightarrow> list_all named (extract_ruby_packages lib content fp)"
  by (simp add: extract_ruby_packages_def ruby_loop_named)

subsection \<open>requirements.txt and setup.py\<close>

lemma py_find_zero: "py_find sub s = Some i \<Longrightarrow> (i = 0) = py_startswith s sub"
  by (cases s) (auto simp: py_startswith_def split: if_splits)

lemma parse_pip_loop_name:
  assumes "[] \<notin> set ops" "\<not> py_isspace x" "parse_pip_loop ops (x # xs) = Inr (nm, ver)"
  shows "(nm \<noteq> []) = (case find (\<lambda>op. py_in op (x # xs)) ops of
                          None \<Rightarrow> True
                        | Some op \<Rightarrow> \<not> py_startswith (x # xs) op)"
  using assms
proof (induction ops)
  case Nil
  then show ?case by auto
next
  case (Cons op ops)
  show ?case
  proof (cases "py_in op (x # xs)")
    case False
    with Cons show ?thesis by simp
  next
    case True
    from py_split1_in [OF True] obtain i where
      i: "py_find op (x # xs) = Some i"
         "py_split1 op (x # xs) = [take i (x # xs), drop (i + length op) (x # xs)]"
      by blast
    from True i(2) Cons.prems(3) have nm: "nm = py_strip (take i (x # xs))" by simp
    have z: "(i = 0) = py_startswith (x # xs) op" using py_find_zero [OF i(1)] .
    show ?thesis
    proof (cases i)
      case 0
      with nm have "nm = []" by (simp add: py_strip_def)
      with 0 z True show ?thesis by simp
    next
      case (Suc k)
      with nm have "nm = py_strip (x # take k xs)" by simp
      with Cons.prems(2) have "nm \<noteq> []" by (simp add: py_strip_nonempty)
      with Suc z True show ?thesis by simp
    qed
  qed
qed

lemma line_cases:
  obtains "py_strip raw = []" | x xs where "py_strip raw = x # xs" "\<not> py_isspace x"
  using py_strip_hd [of raw] by (cases "py_strip raw") auto

lemma parse_pip_specification_has_name:
  assumes "parse_pip_specification raw = Inr (nm, ver)"
  shows "(nm \<noteq> []) = has_name_part (py_strip raw)"
proof (cases raw rule: line_cases)
  case 1
  have "parse_pip_loop pip_operators [] = Inr ([], ''unknown'')"
    by (simp add: pip_operators_def py_in_def)
  with 1 assms show ?thesis by (simp add: parse_pip_specification_def has_name_part_def)
next
  case (2 x xs)
  have ops: "[] \<notin> set pip_operators" by (simp add: pip_operators_def)
  from assms 2 have p: "parse_pip_loop pip_operators (x # xs) = Inr (nm, ver)"
    by (simp add: parse_pip_specification_def)
  from parse_pip_loop_name [OF ops 2(2) p] 2(1) show ?thesis
    by (simp add: has_name_part_def split_operator_def)
qed

lemma requirements_loop_names:
  "\<exists>ps. requirements_loop fp nls acc = Inr (acc @ ps)
     \<and> map named ps = map (\<lambda>l. has_name_part (py_strip l))
                         (filter requirement_line (map snd nls))"
proof (induction nls arbitrary: acc)
  case Nil
  then show ?case by simp
next
  case (Cons nl nls)
  obtain line_num raw where nl: "nl = (line_num, raw)" by (cases nl)
  show ?case
  proof (cases "requirement_line raw")
    case False
    then have "requirements_step fp nl acc = Inr acc"
      by (auto simp: requirements_step_def requirement_line_def nl Let_def)
    with Cons.IH [of acc] False nl show ?thesis by auto
  next
    case True
    obtain nm ver where pv: "parse_pip_specification (py_strip raw) = Inr (nm, ver)"
      using parse_pip_specification_total by blast
    define p where "p = \<lparr>name = JString nm, version = JString ver, type = ''dependency'',
                     category = ''requirements'', package_manager = ''pip'',
                     file_path = fp,
                     source = ''requirements.txt:line_'' @ py_str_nat line_num\<rparr>"
    have step: "requirements_step fp nl acc = Inr (acc @ [p])"
      using True pv by (simp add: requirements_step_def requirement_line_def nl Let_def p_def)
    from Cons.IH [of "acc @ [p]"] obtain ps where
      ps: "requirements_loop fp nls (acc @ [p]) = Inr ((acc @ [p]) @ ps)"
          "map named ps = map (\<lambda>l. has_name_part (py_strip l))
                            (filter requirement_line (map snd nls))"
      by blast
    have "(nm \<noteq> []) = has_name_part (py_strip (py_strip raw))"
      using parse_pip_specification_has_name [OF pv] .
    then have np: "named p = has_name_part (py_strip raw)"
      by (simp add: py_strip_idem named_def p_def)
    have "requirements_loop fp (nl # nls) acc = Inr (acc @ (p # ps))"
      using step ps(1) by simp
    moreover have "map named (p # ps) = map (\<lambda>l. has_name_part (py_strip l))
                            (filter requirement_line (map snd (nl # nls)))"
      using ps(2) True nl np by simp
    ultimately show ?thesis by blast
  qed
qed

lemma requirements_names:
  "\<exists>ps. extract_requirements_txt content fp = Inr ps
     \<and> map named ps = map (\<lambda>l. has_name_part (py_strip l))
                         (filter requirement_line (py_split_char newline content))"
  using requirements_loop_names [of fp "py_enumerate 1 (py_split_char newline content)" "[]"]
  by (simp add: extract_requirements_txt_def map_snd_py_enumerate)

lemma setup_deps_loop_names:
  "\<exists>ps. setup_deps_loop fp deps acc = Inr (acc @ ps)
     \<and> map named ps = map (\<lambda>d. has_name_part (py_strip d)) deps"
proof (induction deps arbitrary: acc)
  case Nil
  then show ?case by simp
next
  case (Cons dep deps)
  obtain nm ver where pv: "parse_pip_specification dep = Inr (nm, ver)"
    using parse_pip_specification_total by blast
  define p where "p = \<lparr>name = JString nm, version = JString ver, type = ''dependency'',
               category = ''install_requires'', package_manager = ''pip'',
               file_path = fp, source = ''setup.py:install_requires''\<rparr>"
  from Cons.IH [of "acc @ [p]"] obtain ps where
    ps: "setup_deps_loop fp deps (acc @ [p]) = Inr ((acc @ [p]) @ ps)"
        "map named ps = map (\<lambda>d. has_name_part (py_strip d)) deps"
    by blast
  have np: "named p = has_name_part (py_strip dep)"
    using parse_pip_specification_has_name [OF pv] by (simp add: named_def p_def)
  have "setup_deps_loop fp (dep # deps) acc = Inr (acc @ (p # ps))"
    using pv ps(1) by (simp add: p_def)
  moreover have "map named (p # ps) = map (\<lambda>d. has_name_part (py_strip d)) (dep # deps)"
    using ps(2) np by simp
  ultimately show ?case by blast
qed

lemma setup_names:
  assumes "groups_nonempty lib"
  shows "map named (extract_setup_py lib content fp)
     = map (\<lambda>d. has_name_part (py_strip d))
         (case re_search lib RE_install_requires content of
            None \<Rightarrow> []
          | Some deps_text \<Rightarrow> re_findall lib RE_quoted deps_text)
       @ (case re_search lib RE_name content of None \<Rightarrow> [] | Some nm \<Rightarrow> [True])"
proof -
  let ?deps = "case re_search lib RE_install_requires content of
            None \<Rightarrow> []
          | Some deps_text \<Rightarrow> re_findall lib RE_quoted deps_text"
  obtain ps where ps: "setup_deps_loop fp ?deps [] = Inr ps"
      "map named ps = map (\<lambda>d. has_name_part (py_strip d)) ?deps"
    using setup_deps_loop_names [of fp ?deps "[]"] by auto
  have first: "(case re_search lib RE_install_requires content of
              None \<Rightarrow> Inr []
            | Some deps_text \<Rightarrow> setup_deps_loop fp (re_findall lib RE_quoted deps_text) [])
        = Inr ps"
    using ps(1) by (simp split: option.splits)
  from assms have nn: "re_search lib RE_name content \<noteq> Some []"
    by (simp add: groups_nonempty_def)
  show ?thesis
    unfolding extract_setup_py_def first
    using ps(2) nn by (auto simp: Let_def named_def split: option.splits)
qed

subsection \<open>pyproject.toml and Cargo.toml\<close>

lemma py_in_char: "py_in [c] s \<longleftrightarrow> c \<in> set s"
  unfolding py_in_def by (induction s) auto

lemma py_find_char: "py_find [c] s = Some i \<Longrightarrow> take i s = takeWhile (\<lambda>d. d \<noteq> c) s"
  by (induction s arbitrary: i) (auto split: if_splits)

lemma py_split1_char:
  "c \<in> set s \<Longrightarrow> \<exists>post. py_split1 [c] s = [takeWhile (\<lambda>d. d \<noteq> c) s, post]"
proof -
  assume "c \<in> set s"
  then have "py_in [c] s" by (simp add: py_in_char)
  from py_split1_in [OF this] obtain i where
    "py_find [c] s = Some i" "py_split1 [c] s = [take i s, drop (i + length [c]) s]" by blast
  then show ?thesis using py_find_char by auto
qed

lemma cargo_step_cases:
  "cargo_section (py_strip raw) \<Longrightarrow> cargo_step fp (n, raw) (ind, acc) = Inr (True, acc)"
  "\<not> cargo_section (py_strip raw) \<Longrightarrow> py_startswith (py_strip raw) ''['' \<and> ind \<Longrightarrow>
     cargo_step fp (n, raw) (ind, acc) = Inr (False, acc)"
  "\<not> cargo_section (py_strip raw) \<Longrightarrow> \<not> (py_startswith (py_strip raw) ''['' \<and> ind) \<Longrightarrow>
   ind \<and> CHR ''='' \<in> set (py_strip raw) \<and> \<not> py_startswith (py_strip raw) ''#'' \<Longrightarrow>
     \<exists>p. cargo_step fp (n, raw) (ind, acc) = Inr (ind, acc @ [p])
        \<and> named p = (name_part (py_strip raw) \<noteq> [])"
  "\<not> cargo_section (py_strip raw) \<Longrightarrow> \<not> (py_startswith (py_strip raw) ''['' \<and> ind) \<Longrightarrow>
   \<not> (ind \<and> CHR ''='' \<in> set (py_strip raw) \<and> \<not> py_startswith (py_strip raw) ''#'') \<Longrightarrow>
     cargo_step fp (n, raw) (ind, acc) = Inr (ind, acc)"
proof -
  show "cargo_section (py_strip raw) \<Longrightarrow> cargo_step fp (n, raw) (ind, acc) = Inr (True, acc)"
    by (simp add: cargo_step_def cargo_section_def Let_def)
  show "\<not> cargo_section (py_strip raw) \<Longrightarrow> py_startswith (py_strip raw) ''['' \<and> ind \<Longrightarrow>
     cargo_step fp (n, raw) (ind, acc) = Inr (False, acc)"
    by (simp add: cargo_step_def cargo_section_def Let_def)
  show "\<not> cargo_section (py_strip raw) \<Longrightarrow> \<not> (py_startswith (py_strip raw) ''['' \<and> ind) \<Longrightarrow>
   \<not> (ind \<and> CHR ''='' \<in> set (py_strip raw) \<and> \<not> py_startswith (py_strip raw) ''#'') \<Longrightarrow>
     cargo_step fp (n, raw) (ind, acc) = Inr (ind, acc)"
    using py_in_char [of "CHR ''=''" "py_strip raw"]
    by (auto simp: cargo_step_def cargo_section_def Let_def)
  show "\<exists>p. cargo_step fp (n, raw) (ind, acc) = Inr (ind, acc @ [p])
        \<and> named p = (name_part (py_strip raw) \<noteq> [])"
    if a: "\<not> cargo_section (py_strip raw)" "\<not> (py_startswith (py_strip raw) ''['' \<and> ind)"
      "ind \<and> CHR ''='' \<in> set (py_strip raw) \<and> \<not> py_startswith (py_strip raw) ''#''"
  proof -
    from a(3) have e: "CHR ''='' \<in> set (py_strip raw)" by simp
    then have i: "py_in ''='' (py_strip raw)" by (simp add: py_in_char)
    from py_split1_char [OF e] obtain post where
      sp: "py_split1 ''='' (py_strip raw) = [takeWhile (\<lambda>d. d \<noteq> CHR ''='') (py_strip raw), post]"
      by blast
    show ?thesis
      using a i sp
      by (simp add: cargo_step_def cargo_section_def Let_def named_def name_part_def)
  qed
qed

lemma cargo_loop_names:
  "map named (cargo_loop fp nls (ind, acc))
     = map named acc @ map (\<lambda>l. name_part l \<noteq> [])
                         (dependency_lines cargo_section ind (map snd nls))"
proof (induction nls arbitrary: ind acc)
  case Nil
  then show ?case by simp
next
  case (Cons nl nls)
  obtain n raw where nl: "nl = (n, raw)" by (cases nl)
  consider (a) "cargo_section (py_strip raw)"
    | (b) "\<not> cargo_section (py_strip raw)" "py_startswith (py_strip raw) ''['' \<and> ind"
    | (c) "\<not> cargo_section (py_strip raw)" "\<not> (py_startswith (py_strip raw) ''['' \<and> ind)"
          "ind \<and> CHR ''='' \<in> set (py_strip raw) \<and> \<not> py_startswith (py_strip raw) ''#''"
    | (d) "\<not> cargo_section (py_strip raw)" "\<not> (py_startswith (py_strip raw) ''['' \<and> ind)"
          "\<not> (ind \<and> CHR ''='' \<in> set (py_strip raw) \<and> \<not> py_startswith (py_strip raw) ''#'')"
    by blast
  then show ?case
  proof cases
    case a
    from cargo_step_cases(1) [OF a] Cons.IH [of True acc] a nl show ?thesis by simp
  next
    case b
    from cargo_step_cases(2) [OF b] Cons.IH [of False acc] b nl show ?thesis by simp
  next
    case c
    from cargo_step_cases(3) [OF c, of fp n acc] obtain p where
      p: "cargo_step fp (n, raw) (ind, acc) = Inr (ind, acc @ [p])"
         "named p = (name_part (py_strip raw) \<noteq> [])" by blast
    from p Cons.IH [of ind "acc @ [p]"] c nl show ?thesis by simp
  next
    case d
    from cargo_step_cases(4) [OF d] Cons.IH [of ind acc] d nl show ?thesis by auto
  qed
qed

lemma cargo_names:
  "map named (extract_cargo_packages content fp)
     = map (\<lambda>l. name_part l \<noteq> [])
         (dependency_lines cargo_section False (py_split_char newline content))"
  using cargo_loop_names [of fp "py_enumerate 1 (py_split_char newline content)" False "[]"]
  by (simp add: extract_cargo_packages_def map_snd_py_enumerate)

lemma pyproject_step_cases:
  "pyproject_section (py_strip raw) \<Longrightarrow> pyproject_step fp (n, raw) (ind, acc) = Inr (True, acc)"
  "\<not> pyproject_section (py_strip raw) \<Longrightarrow> py_startswith (py_strip raw) ''['' \<and> ind \<Longrightarrow>
     pyproject_step fp (n, raw) (ind, acc) = Inr (False, acc)"
  "\<not> pyproject_section (py_strip raw) \<Longrightarrow> \<not> (py_startswith (py_strip raw) ''['' \<and> ind) \<Longrightarrow>
   ind \<and> CHR ''='' \<in> set (py_strip raw) \<and> \<not> py_startswith (py_strip raw) ''#'' \<Longrightarrow>
     \<exists>p. pyproject_step fp (n, raw) (ind, acc) = Inr (ind, acc @ [p])
        \<and> named p = (py_strip_chars quote_chars (name_part (py_strip raw)) \<noteq> [])"
  "\<not> pyproject_section (py_strip raw) \<Longrightarrow> \<not> (py_startswith (py_strip raw) ''['' \<and> ind) \<Longrightarrow>
   \<not> (ind \<and> CHR ''='' \<in> set (py_strip raw) \<and> \<not> py_startswith (py_strip raw) ''#'') \<Longrightarrow>
     pyproject_step fp (n, raw) (ind, acc) = Inr (ind, acc)"
proof -
  show "pyproject_section (py_strip raw) \<Longrightarrow>
      pyproject_step fp (n, raw) (ind, acc) = Inr (True, acc)"
    by (simp add: pyproject_step_def pyproject_section_def Let_def)
  show "\<not> pyproject_section (py_strip raw) \<Longrightarrow> py_startswith (py_strip raw) ''['' \<and> ind \<Longrightarrow>
     pyproject_step fp (n, raw) (ind, acc) = Inr (False, acc)"
    by (simp add: pyproject_step_def pyproject_section_def Let_def)
  show "\<not> pyproject_section (py_strip raw) \<Longrightarrow> \<not> (py_startswith (py_strip raw) ''['' \<and> ind) \<Longrightarrow>
   \<not> (ind \<and> CHR ''='' \<in> set (py_strip raw) \<and> \<not> py_startswith (py_strip raw) ''#'') \<Longrightarrow>
     pyproject_step fp (n, raw) (ind, acc) = Inr (ind, acc)"
    using py_in_char [of "CHR ''=''" "py_strip raw"]
    by (auto simp: pyproject_step_def pyproject_section_def Let_def)
  show "\<exists>p. pyproject_step fp (n, raw) (ind, acc) = Inr (ind, acc @ [p])
        \<and> named p = (py_strip_chars quote_chars (name_part (py_strip raw)) \<noteq> [])"
    if a: "\<not> pyproject_section (py_strip raw)" "\<not> (py_startswith (py_strip raw) ''['' \<and> ind)"
      "ind \<and> CHR ''='' \<in> set (py_strip raw) \<and> \<not> py_startswith (py_strip raw) ''#''"
  proof -
    from a(3) have e: "CHR ''='' \<in> set (py_strip raw)" by simp
    then have i: "py_in ''='' (py_strip raw)" by (simp add: py_in_char)
    from py_split1_char [OF e] obtain post where
      sp: "py_split1 ''='' (py_strip raw) = [takeWhile (\<lambda>d. d \<noteq> CHR ''='') (py_strip raw), post]"
      by blast
    show ?thesis
      using a i sp
      by (simp add: pyproject_step_def pyproject_section_def Let_def named_def name_part_def)
  qed
qed

lemma pyproject_loop_names:
  "map named (pyproject_loop fp nls (ind, acc))
     = map named acc @ map (\<lambda>l. py_strip_chars quote_chars (name_part l) \<noteq> [])
                         (dependency_lines pyproject_section ind (map snd nls))"
proof (induction nls arbitrary: ind acc)
  case Nil
  then show ?case by simp
next
  case (Cons nl nls)
  obtain n raw where nl: "nl = (n, raw)" by (cases nl)
  consider (a) "pyproject_section (py_strip raw)"
    | (b) "\<not> pyproject_section (py_strip raw)" "py_startswith (py_strip raw) ''['' \<and> ind"
    | (c) "\<not> pyproject_section (py_strip raw)" "\<not> (py_startswith (py_strip raw) ''['' \<and> ind)"
          "ind \<and> CHR ''='' \<in> set (py_strip raw) \<and> \<not> py_startswith (py_strip raw) ''#''"
    | (d) "\<not> pyproject_section (py_strip raw)" "\<not> (py_startswith (py_strip raw) ''['' \<and> ind)"
          "\<not> (ind \<and> CHR ''='' \<in> set (py_strip raw) \<and> \<not> py_startswith (py_strip raw) ''#'')"
    by blast
  then show ?case
  proof cases
    case a
    from pyproject_step_cases(1) [OF a] Cons.IH [of True acc] a nl show ?thesis by simp
  next
    case b
    from pyproject_step_cases(2) [OF b] Cons.IH [of False acc] b nl show ?thesis by simp
  next
    case c
    from pyproject_step_cases(3) [OF c, of fp n acc] obtain p where
      p: "pyproject_step fp (n, raw) (ind, acc) = Inr (ind, acc @ [p])"
         "named p = (py_strip_chars quote_chars (name_part (py_strip raw)) \<noteq> [])" by blast
    from p Cons.IH [of ind "acc @ [p]"] c nl show ?thesis by simp
  next
    case d
    from pyproject_step_cases(4) [OF d] Cons.IH [of ind acc] d nl show ?thesis by auto
  qed
qed

lemma pyproject_names:
  "map named (extract_pyproject_toml content fp)
     = map (\<lambda>l. py_strip_chars quote_chars (name_part l) \<noteq> [])
         (dependency_lines pyproject_section False (py_split_char newline content))"
  using pyproject_loop_names [of fp "py_enumerate 1 (py_split_char newline content)" False "[]"]
  by (simp add: extract_pyproject_toml_def map_snd_py_enumerate)

subsection \<open>package.json and composer.json\<close>

lemma main_block_names:
  assumes "main_block pm src data fp = Inr ps"
  shows "list_all named ps
       = (case py_getitem data ''name'' of Inl e \<Rightarrow> True | Inr nm \<Rightarrow> nonempty_string nm)"
proof (cases data)
  case (JObject kvs)
  show ?thesis
  proof (cases "map_of kvs ''name''")
    case None
    then have "''name'' \<notin> fst ` set kvs" by (simp add: map_of_eq_None_iff)
    with assms JObject None show ?thesis by (auto simp: main_block_def and_then_def)
  next
    case (Some v)
    then have "''name'' \<in> fst ` set kvs" by (metis map_of_eq_None_iff option.distinct(1))
    with assms JObject Some show ?thesis
      by (cases v) (auto simp: main_block_def and_then_def named_def split: option.splits)
  qed
qed (use assms in \<open>auto simp: main_block_def and_then_def split: if_splits\<close>)

lemma deps_records_named:
  "list_all named (map (\<lambda>(nm, ver).
                         \<lparr>name = JString nm, version = ver, type = ''dependency'',
                           category = deps_key, package_manager = pm, file_path = fp,
                           source = src\<rparr>) kvs)
     = ([] \<notin> set (map fst kvs))"
  by (induction kvs) (auto simp: named_def)

lemma deps_block_names:
  assumes "deps_block pm src data fp deps_key = Inr ps"
  shows "list_all named ps
       = (case py_getitem data deps_key of Inl e \<Rightarrow> True | Inr deps \<Rightarrow> keys_nonempty deps)"
proof (cases data)
  case (JObject kvs)
  show ?thesis
  proof (cases "map_of kvs deps_key")
    case None
    then have "deps_key \<notin> fst ` set kvs" by (simp add: map_of_eq_None_iff)
    with assms JObject None show ?thesis by (auto simp: deps_block_def and_then_def)
  next
    case (Some v)
    then have "deps_key \<in> fst ` set kvs" by (metis map_of_eq_None_iff option.distinct(1))
    with assms JObject Some show ?thesis
      by (cases v)
         (auto simp: deps_block_def and_then_def deps_records_named split: option.splits)
  qed
qed (use assms in \<open>auto simp: deps_block_def and_then_def split: if_splits\<close>)

lemma deps_loop_names:
  "deps_loop pm src data fp deps_keys = Inr ps \<Longrightarrow>
   list_all named ps
     = list_all (\<lambda>deps_key. case py_getitem data deps_key of
                               Inl e \<Rightarrow> True
                             | Inr deps \<Rightarrow> keys_nonempty deps) deps_keys"
proof (induction deps_keys arbitrary: ps)
  case Nil
  then show ?case by auto
next
  case (Cons k ks)
  from Cons.prems obtain p1 p2 where
    p: "deps_block pm src data fp k = Inr p1" "deps_loop pm src data fp ks = Inr p2"
       "ps = p1 @ p2"
    by (auto simp: and_then_def split: sum.splits)
  from deps_block_names [OF p(1)] Cons.IH [OF p(2)] p(3) show ?case by simp
qed

lemma scripts_loop_named:
  "groups_nonempty lib \<Longrightarrow> scripts_loop lib fp kvs = Inr ps \<Longrightarrow> list_all named ps"
proof (induction kvs arbitrary: ps)
  case Nil
  then show ?case by simp
next
  case (Cons kv kvs)
  obtain script_name script_content where kv: "kv = (script_name, script_content)" by (cases kv)
  from Cons.prems(2) kv obtain refs qs where
    r: "extract_package_references_from_text lib script_content = Inr refs"
       "scripts_loop lib fp kvs = Inr qs"
       "ps = map (\<lambda>pkg_name.
              \<lparr>name = JString pkg_name, version = JString ''unknown'',
                type = ''script_reference'', category = ''scripts'',
                package_manager = ''npm'', file_path = fp,
                source = ''package.json:scripts:'' @ script_name\<rparr>) refs @ qs"
    by (auto simp: and_then_def split: sum.splits)
  from r(1) Cons.prems(1) have "[] \<notin> set refs"
    by (auto simp: extract_package_references_from_text_def groups_nonempty_def
        split: json.splits)
  with Cons.IH [OF Cons.prems(1) r(2)] r(3) show ?case
    by (auto simp: list_all_iff named_def)
qed

lemma scripts_block_named:
  "groups_nonempty lib \<Longrightarrow> scripts_block lib data fp = Inr ps \<Longrightarrow> list_all named ps"
  using scripts_loop_named [of lib fp _ ps]
  by (auto simp: scripts_block_def and_then_def split: sum.splits if_splits json.splits)

lemma npm_names:
  assumes "groups_nonempty lib" "json_loads lib content = Inr data"
    "extract_npm_packages lib content fp = Inr ps"
  shows "list_all named ps
       = json_names_nonempty data [''dependencies'', ''devDependencies'', ''peerDependencies'',
                                   ''optionalDependencies'']"
proof -
  from assms(2,3) obtain main deps refs where
    p: "main_block ''npm'' ''package.json'' data fp = Inr main"
       "deps_loop ''npm'' ''package.json'' data fp
          [''dependencies'', ''devDependencies'', ''peerDependencies'',
           ''optionalDependencies''] = Inr deps"
       "scripts_block lib data fp = Inr refs"
       "ps = main @ deps @ refs"
    by (auto simp: extract_npm_packages_def and_then_def split: sum.splits)
  from main_block_names [OF p(1)] deps_loop_names [OF p(2)]
    scripts_block_named [OF assms(1) p(3)] p(4)
  show ?thesis unfolding json_names_nonempty_def by simp
qed

lemma composer_names:
  assumes "json_loads lib content = Inr data"
    "extract_composer_packages lib content fp = Inr ps"
  shows "list_all named ps = json_names_nonempty data [''require'', ''require-dev'']"
proof -
  from assms obtain main deps where
    p: "main_block ''composer'' ''composer.json'' data fp = Inr main"
       "deps_loop ''composer'' ''composer.json'' data fp [''require'', ''require-dev'']
          = Inr deps"
       "ps = main @ deps"
    by (auto simp: extract_composer_packages_def and_then_def split: sum.splits)
  from main_block_names [OF p(1)] deps_loop_names [OF p(2)] p(3)
  show ?thesis unfolding json_names_nonempty_def by simp
qed

subsection \<open>The examples\<close>

lemma example_names_lib_groups: "groups_nonempty example_names_lib"
  by (simp add: groups_nonempty_def example_names_lib_def)

lemma example_gradle_length:
  "length (extract_gradle_packages example_names_lib example_gradle ''build.gradle'') = 1"
  by code_simp

lemma example_gemfile_length:
  "length (extract_ruby_packages example_names_lib example_gemfile ''Gemfile'') = 1"
  by code_simp

lemma example_requirements_operators_names:
  "map (\<lambda>l. has_name_part (py_strip l))
     (filter requirement_line (py_split_char newline example_requirements_operators))
   = [True, False]"
  by code_simp

lemma example_setup_py_names:
  "map (\<lambda>dep. has_name_part (py_strip dep))
     (case re_search example_names_lib RE_install_requires example_setup_py of
        None \<Rightarrow> []
      | Some deps_text \<Rightarrow> re_findall example_names_lib RE_quoted deps_text)
   @ (case re_search example_names_lib RE_name example_setup_py of
        None \<Rightarrow> [] | Some nm \<Rightarrow> [True])
   = [True]"
  by code_simp

lemma example_pyproject_toml_names:
  "map (\<lambda>l. py_strip_chars quote_chars (name_part l) \<noteq> [])
     (dependency_lines pyproject_section False (py_split_char newline example_pyproject_toml))
   = [True]"
  by code_simp

lemma example_cargo_plain_names:
  "map (\<lambda>l. name_part l \<noteq> [])
     (dependency_lines cargo_section False (py_split_char newline example_cargo_plain))
   = [True]"
  by code_simp

lemma example_json_named_loads:
  "json_loads example_names_lib example_json_named = Inr (JObject [(''name'', JString ''app'')])"
  by code_simp

lemma example_json_named_npm:
  "extract_npm_packages example_names_lib example_json_named ''package.json''
     = Inr [\<lparr>name = JString ''app'', version = JString ''unknown'', type = ''package'',
              category = ''main'', package_manager = ''npm'',
              file_path = ''package.json'', source = ''package.json''\<rparr>]"
  by code_simp

lemma example_json_named_composer:
  "extract_composer_packages example_names_lib example_json_named ''composer.json''
     = Inr [\<lparr>name = JString ''app'', version = JString ''unknown'', type = ''package'',
              category = ''main'', package_manager = ''composer'',
              file_path = ''composer.json'', source = ''composer.json''\<rparr>]"
  by code_simp

lemma example_json_named_names:
  "json_names_nonempty (JObject [(''name'', JString ''app'')])
     [''dependencies'', ''devDependencies'', ''peerDependencies'', ''optionalDependencies'']"
  "json_names_nonempty (JObject [(''name'', JString ''app'')]) [''require'', ''require-dev'']"
  by code_simp+

subsection \<open>The names of the records, parser by parser\<close>

text \<open>
  Claim C2, as amended. For every manifest file recognised by the pattern table and
  every content, the names of the records that its parser returns are as follows.
  Every record of a pom.xml, of a go.mod or go.sum, and of a packages.config or a
  project file (.csproj, .vbproj) has a non-empty name; so has every record of a
  build.gradle and of a Gemfile, whose names are groups of one character or more of
  the regular expressions. The other parsers drop no record for its name.
  requirements.txt yields one record for every line that is neither blank nor a
  comment, and its name is non-empty exactly when the stripped line does not begin
  with the operator at which it is split, the first of ==, >=, <=, >, <, ~=, != that
  occurs in it. setup.py yields one record for every quoted string of
  install_requires, with a non-empty name exactly when the stripped string is not
  empty and does not begin with the operator at which it is split, followed by the
  record of the package itself, whose name is not empty. pyproject.toml and Cargo.toml
  yield one record for every dependency line, and its name is non-empty exactly when
  what stands before the first equals sign of the line, stripped of white space (and
  then, for pyproject.toml, of quote characters), is not empty. When the parser of
  package.json or composer.json returns records, all of them have non-empty names
  exactly when the value of the key name, if there is one, is a non-empty string and
  no dictionary of dependencies has the empty string as a key; when the text is not
  decoded, it returns no record.
\<close>

theorem record_names_by_parser:
  "list_all named (extract_maven_packages lib content fp)
   \<and> list_all named (extract_go_packages content fp)
   \<and> list_all named (extract_nuget_packages lib content fp)
   \<and> (groups_nonempty lib \<longrightarrow>
        list_all named (extract_gradle_packages lib content fp)
        \<and> list_all named (extract_ruby_packages lib content fp))
   \<and> (\<exists>ps. extract_requirements_txt content fp = Inr ps
         \<and> map named ps = map (\<lambda>l. has_name_part (py_strip l))
                             (filter requirement_line (py_split_char newline content)))
   \<and> (groups_nonempty lib \<longrightarrow>
        map named (extract_setup_py lib content fp)
          = map (\<lambda>dep. has_name_part (py_strip dep))
              (case re_search lib RE_install_requires content of
                 None \<Rightarrow> []
               | Some deps_text \<Rightarrow> re_findall lib RE_quoted deps_text)
            @ (case re_search lib RE_name content of None \<Rightarrow> [] | Some nm \<Rightarrow> [True]))
   \<and> map named (extract_pyproject_toml content fp)
       = map (\<lambda>l. py_strip_chars quote_chars (name_part l) \<noteq> [])
           (dependency_lines pyproject_section False (py_split_char newline content))
   \<and> map named (extract_cargo_packages content fp)
       = map (\<lambda>l. name_part l \<noteq> [])
           (dependency_lines cargo_section False (py_split_char newline content))
   \<and> (\<forall>data ps. groups_nonempty lib \<and> json_loads lib content = Inr data
          \<and> extract_npm_packages lib content fp = Inr ps
        \<longrightarrow> list_all named ps
            = json_names_nonempty data
                [''dependencies'', ''devDependencies'', ''peerDependencies'',
                 ''optionalDependencies''])
   \<and> (\<forall>data ps. json_loads lib content = Inr data
          \<and> extract_composer_packages lib content fp = Inr ps
        \<longrightarrow> list_all named ps = json_names_nonempty data [''require'', ''require-dev''])
   \<and> (\<forall>e ps. json_loads lib content = Inl e
          \<and> (extract_npm_packages lib content fp = Inr ps
             \<or> extract_composer_packages lib content fp = Inr ps)
        \<longrightarrow> ps = [])"
proof (intro conjI impI allI)
  show "list_all named (extract_maven_packages lib content fp)" by (rule maven_named)
  show "list_all named (extract_go_packages content fp)" by (rule go_named)
  show "list_all named (extract_nuget_packages lib content fp)" by (rule nuget_named)
  show "list_all named (extract_gradle_packages lib content fp)" if "groups_nonempty lib"
    using that by (rule gradle_named)
  show "list_all named (extract_ruby_packages lib content fp)" if "groups_nonempty lib"
    using that by (rule ruby_named)
  show "\<exists>ps. extract_requirements_txt content fp = Inr ps
         \<and> map named ps = map (\<lambda>l. has_name_part (py_strip l))
                             (filter requirement_line (py_split_char newline content))"
    by (rule requirements_names)
  show "map named (extract_setup_py lib content fp)
          = map (\<lambda>dep. has_name_part (py_strip dep))
              (case re_search lib RE_install_requires content of
                 None \<Rightarrow> []
               | Some deps_text \<Rightarrow> re_findall lib RE_quoted deps_text)
            @ (case re_search lib RE_name content of None \<Rightarrow> [] | Some nm \<Rightarrow> [True])"
    if "groups_nonempty lib"
    using that by (rule setup_names)
  show "map named (extract_pyproject_toml content fp)
       = map (\<lambda>l. py_strip_chars quote_chars (name_part l) \<noteq> [])
           (dependency_lines pyproject_section False (py_split_char newline content))"
    by (rule pyproject_names)
  show "map named (extract_cargo_packages content fp)
       = map (\<lambda>l. name_part l \<noteq> [])
           (dependency_lines cargo_section False (py_split_char newline content))"
    by (rule cargo_names)
  show "list_all named ps
            = json_names_nonempty data
                [''dependencies'', ''devDependencies'', ''peerDependencies'',
                 ''optionalDependencies'']"
    if "groups_nonempty lib \<and> json_loads lib content = Inr data
          \<and> extract_npm_packages lib content fp = Inr ps" for data ps
    using that npm_names [of lib content data fp ps] by blast
  show "list_all named ps = json_names_nonempty data [''require'', ''require-dev'']"
    if "json_loads lib content = Inr data
          \<and> extract_composer_packages lib content fp = Inr ps" for data ps
    using that composer_names [of lib content data fp ps] by blast
  show "ps = []"
    if "json_loads lib content = Inl e
          \<and> (extract_npm_packages lib content fp = Inr ps
             \<or> extract_composer_packages lib content fp = Inr ps)" for e ps
    using that
    by (auto simp: extract_npm_packages_def extract_composer_packages_def split: if_splits)
qed

theorem record_names_by_parser_witness:
  "list_all named (extract_gradle_packages example_names_lib example_gradle ''build.gradle'')
   \<and> length (extract_gradle_packages example_names_lib example_gradle ''build.gradle'') = 1
   \<and> list_all named (extract_ruby_packages example_names_lib example_gemfile ''Gemfile'')
   \<and> length (extract_ruby_packages example_names_lib example_gemfile ''Gemfile'') = 1
   \<and> (\<exists>ps. extract_requirements_txt example_requirements_operators ''requirements.txt'' = Inr ps
         \<and> map named ps = [True, False])
   \<and> map named (extract_setup_py example_names_lib example_setup_py ''setup.py'') = [True]
   \<and> map named (extract_pyproject_toml example_pyproject_toml ''pyproject.toml'') = [True]
   \<and> map named (extract_cargo_packages example_cargo_plain ''Cargo.toml'') = [True]
   \<and> (\<exists>ps. extract_npm_packages example_names_lib example_json_named ''package.json'' = Inr ps
         \<and> length ps = 1 \<and> list_all named ps)
   \<and> (\<exists>ps. extract_composer_packages example_names_lib example_json_named ''composer.json''
           = Inr ps
         \<and> length ps = 1 \<and> list_all named ps)"
proof -
  note g = example_names_lib_groups
  note c4 = conjunct2 [THEN conjunct2, THEN conjunct2, THEN conjunct1]
  note c5 = conjunct2 [THEN conjunct2, THEN conjunct2, THEN conjunct2, THEN conjunct1]
  note c6 = conjunct2 [THEN conjunct2, THEN conjunct2, THEN conjunct2, THEN conjunct2,
      THEN conjunct1]
  note c7 = conjunct2 [THEN conjunct2, THEN conjunct2, THEN conjunct2, THEN conjunct2,
      THEN conjunct2, THEN conjunct1]
  note c8 = conjunct2 [THEN conjunct2, THEN conjunct2, THEN conjunct2, THEN conjunct2,
      THEN conjunct2, THEN conjunct2, THEN conjunct1]
  note c9 = conjunct2 [THEN conjunct2, THEN conjunct2, THEN conjunct2, THEN conjunct2,
      THEN conjunct2, THEN conjunct2, THEN conjunct2, THEN conjunct1]
  note c10 = conjunct2 [THEN conjunct2, THEN conjunct2, THEN conjunct2, THEN conjunct2,
      THEN conjunct2, THEN conjunct2, THEN conjunct2, THEN conjunct2, THEN conjunct1]
  have gr: "list_all named (extract_gradle_packages example_names_lib example_gradle ''build.gradle'')"
    using record_names_by_parser [of example_names_lib example_gradle "''build.gradle''",
        THEN c4, THEN mp, OF g]
    by (rule conjunct1)
  have ru: "list_all named (extract_ruby_packages example_names_lib example_gemfile ''Gemfile'')"
    using record_names_by_parser [of example_names_lib example_gemfile "''Gemfile''",
        THEN c4, THEN mp, OF g]
    by (rule conjunct2)
  from record_names_by_parser [of example_names_lib example_requirements_operators
      "''requirements.txt''", THEN c5]
  obtain ps where ps:
    "extract_requirements_txt example_requirements_operators ''requirements.txt'' = Inr ps"
    "map named ps = map (\<lambda>l. has_name_part (py_strip l))
              (filter requirement_line (py_split_char newline example_requirements_operators))"
    by (elim exE conjE)
  from ps(2) example_requirements_operators_names have "map named ps = [True, False]"
    by (rule trans)
  with ps(1) have req: "\<exists>ps. extract_requirements_txt example_requirements_operators
        ''requirements.txt'' = Inr ps \<and> map named ps = [True, False]"
    by (intro exI [of _ ps] conjI)
  have su: "map named (extract_setup_py example_names_lib example_setup_py ''setup.py'') = [True]"
    using record_names_by_parser [of example_names_lib example_setup_py "''setup.py''",
        THEN c6, THEN mp, OF g] example_setup_py_names
    by (rule trans)
  have py: "map named (extract_pyproject_toml example_pyproject_toml ''pyproject.toml'') = [True]"
    using record_names_by_parser [of example_names_lib example_pyproject_toml
        "''pyproject.toml''", THEN c7] example_pyproject_toml_names
    by (rule trans)
  have ca: "map named (extract_cargo_packages example_cargo_plain ''Cargo.toml'') = [True]"
    using record_names_by_parser [of example_names_lib example_cargo_plain "''Cargo.toml''",
        THEN c8] example_cargo_plain_names
    by (rule trans)
  have npm_named: "list_all named
        [\<lparr>name = JString ''app'', version = JString ''unknown'', type = ''package'',
          category = ''main'', package_manager = ''npm'',
          file_path = ''package.json'', source = ''package.json''\<rparr>]"
    using record_names_by_parser [of example_names_lib example_json_named "''package.json''",
        THEN c9, THEN spec, THEN spec, THEN mp,
        OF conjI [OF g conjI [OF example_json_named_loads example_json_named_npm]]]
      example_json_named_names(1)
    by (rule iffD2)
  have comp_named: "list_all named
        [\<lparr>name = JString ''app'', version = JString ''unknown'', type = ''package'',
          category = ''main'', package_manager = ''composer'',
          file_path = ''composer.json'', source = ''composer.json''\<rparr>]"
    using record_names_by_parser [of example_names_lib example_json_named "''composer.json''",
        THEN c10, THEN spec, THEN spec, THEN mp,
        OF conjI [OF example_json_named_loads example_json_named_composer]]
      example_json_named_names(2)
    by (rule iffD2)
  have npm: "\<exists>ps. extract_npm_packages example_names_lib example_json_named ''package.json''
        = Inr ps \<and> length ps = 1 \<and> list_all named ps"
  proof (intro exI conjI)
    show "extract_npm_packages example_names_lib example_json_named ''package.json''
        = Inr [\<lparr>name = JString ''app'', version = JString ''unknown'', type = ''package'',
          category = ''main'', package_manager = ''npm'',
          file_path = ''package.json'', source = ''package.json''\<rparr>]"
      by (rule example_json_named_npm)
    show "length [\<lparr>name = JString ''app'', version = JString ''unknown'', type = ''package'',
          category = ''main'', package_manager = ''npm'',
          file_path = ''package.json'', source = ''package.json''\<rparr>] = 1"
      by (simp only: list.size One_nat_def add_0)
    show "list_all named [\<lparr>name = JString ''app'', version = JString ''unknown'',
          type = ''package'', category = ''main'', package_manager = ''npm'',
          file_path = ''package.json'', source = ''package.json''\<rparr>]"
      by (rule npm_named)
  qed
  have comp: "\<exists>ps. extract_composer_packages example_names_lib example_json_named
        ''composer.json'' = Inr ps \<and> length ps = 1 \<and> list_all named ps"
  proof (intro exI conjI)
    show "extract_composer_packages example_names_lib example_json_named ''composer.json''
        = Inr [\<lparr>name = JString ''app'', version = JString ''unknown'', type = ''package'',
          category = ''main'', package_manager = ''composer'',
          file_path = ''composer.json'', source = ''composer.json''\<rparr>]"
      by (rule example_json_named_composer)
    show "length [\<lparr>name = JString ''app'', version = JString ''unknown'', type = ''package'',
          category = ''main'', package_manager = ''composer'',
          file_path = ''composer.json'', source = ''composer.json''\<rparr>] = 1"
      by (simp only: list.size One_nat_def add_0)
    show "list_all named [\<lparr>name = JString ''app'', version = JString ''unknown'',
          type = ''package'', category = ''main'', package_manager = ''composer'',
          file_path = ''composer.json'', source = ''composer.json''\<rparr>]"
      by (rule comp_named)
  qed
  show ?thesis
    by (intro conjI gr example_gradle_length ru example_gemfile_length req su py ca npm comp)
qed

text \<open>
  Claim C2 as stated fails: the requirements.txt line ==1.0, the line = 1.0 in the
  dependency section of a pyproject.toml or of a Cargo.toml, the requirement ==1.0 in
  the install_requires of a setup.py, the empty key in the dependencies of a
  package.json and the empty name of a composer.json are each parsed into a record
  whose name is the empty string.
\<close>

theorem parsers_emit_empty_names:
  "extract_requirements_txt ''==1.0'' ''requirements.txt''
     = Inr [\<lparr>name = JString '''', version = JString ''==1.0'', type = ''dependency'',
              category = ''requirements'', package_manager = ''pip'',
              file_path = ''requirements.txt'', source = ''requirements.txt:line_1''\<rparr>]
   \<and> extract_pyproject_toml example_empty_key_pyproject ''pyproject.toml''
     = [\<lparr>name = JString '''', version = JString ''1.0'', type = ''dependency'',
          category = ''dependencies'', package_manager = ''pip'',
          file_path = ''pyproject.toml'', source = ''pyproject.toml:line_2''\<rparr>]
   \<and> extract_cargo_packages example_empty_key ''Cargo.toml''
     = [\<lparr>name = JString '''', version = JString ''1.0'', type = ''dependency'',
          category = ''dependencies'', package_manager = ''cargo'',
          file_path = ''Cargo.toml'', source = ''Cargo.toml:line_2''\<rparr>]
   \<and> extract_setup_py example_names_lib example_setup_py_operator ''setup.py''
     = [\<lparr>name = JString '''', version = JString ''==1.0'', type = ''dependency'',
          category = ''install_requires'', package_manager = ''pip'',
          file_path = ''setup.py'', source = ''setup.py:install_requires''\<rparr>]
   \<and> extract_npm_packages example_names_lib example_json_empty_key ''package.json''
     = Inr [\<lparr>name = JString '''', version = JString ''1.0'', type = ''dependency'',
              category = ''dependencies'', package_manager = ''npm'',
              file_path = ''package.json'', source = ''package.json''\<rparr>]
   \<and> extract_composer_packages example_names_lib example_json_empty_name ''composer.json''
     = Inr [\<lparr>name = JString '''', version = JString ''unknown'', type = ''package'',
              category = ''main'', package_manager = ''composer'',
              file_path = ''composer.json'', source = ''composer.json''\<rparr>]"
  by code_simp

section \<open>Retries of a lookup\<close>

lemma loop_fails:
  "\<forall>a \<in> set as. attempt_fails nm (net a) \<Longrightarrow>
   get_package_info_loop net nm (as @ rest) tr =
   get_package_info_loop net nm rest
     (tr @ concat (map (\<lambda>a. Request nm a #
                            (if a < MAX_RETRIES - 1
                             then [BackoffSleep (RETRY_DELAY * BACKOFF_FACTOR ^ a)] else [])) as))"
proof (induction as arbitrary: tr)
  case Nil
  then show ?case by simp
next
  case (Cons a as)
  from Cons.prems have f: "attempt_fails nm (net a)"
    and rest: "\<forall>a \<in> set as. attempt_fails nm (net a)" by simp_all
  show ?case
  proof (cases "net a")
    case (Raises e)
    then show ?thesis using Cons.IH [OF rest] by (simp add: Let_def)
  next
    case (Response status body)
    with f obtain e where "status = 200" "and_then body (package_info_of nm) = Inl e"
      by (cases "and_then body (package_info_of nm)") (auto simp: attempt_fails_def)
    with Response show ?thesis using Cons.IH [OF rest] by (simp add: Let_def)
  qed
qed

lemma retry_trace_alt:
  "k \<le> MAX_RETRIES - 1 \<Longrightarrow>
   concat (map (\<lambda>a. Request nm a #
                  (if a < MAX_RETRIES - 1
                   then [BackoffSleep (RETRY_DELAY * BACKOFF_FACTOR ^ a)] else [])) [0..<k])
   = retry_trace nm k"
  unfolding retry_trace_def
  by (rule arg_cong [where f = concat], rule map_cong) auto

lemma loop_answer:
  assumes "\<not> attempt_fails nm (net k)"
  shows "snd (get_package_info_loop net nm (k # rest) tr) = tr @ [Request nm k]"
    and "net k = Response 404 body \<Longrightarrow> fst (get_package_info_loop net nm (k # rest) tr) = None"
    and "net k = Response 200 body \<Longrightarrow> and_then body (package_info_of nm) = Inr info \<Longrightarrow>
         fst (get_package_info_loop net nm (k # rest) tr) = Some info"
proof -
  show "snd (get_package_info_loop net nm (k # rest) tr) = tr @ [Request nm k]"
  proof (cases "net k")
    case (Raises e)
    with assms show ?thesis by (simp add: attempt_fails_def)
  next
    case (Response status body)
    with assms show ?thesis
      by (cases "and_then body (package_info_of nm)") (auto simp: attempt_fails_def Let_def)
  qed
  show "net k = Response 404 body \<Longrightarrow> fst (get_package_info_loop net nm (k # rest) tr) = None"
    by (simp add: Let_def)
  show "net k = Response 200 body \<Longrightarrow> and_then body (package_info_of nm) = Inr info \<Longrightarrow>
         fst (get_package_info_loop net nm (k # rest) tr) = Some info"
    by (simp add: Let_def)
qed

lemma upt_split: "k < n \<Longrightarrow> [0..<n] = [0..<k] @ k # [Suc k..<n]"
  by (metis upt_add_eq_append upt_conv_Cons zero_le le_add_diff_inverse less_imp_le_nat add_0)

section \<open>One lookup for every npm record\<close>

lemma lookups_append: "lookups (t1 @ t2) = lookups t1 @ lookups t2"
  by (simp add: lookups_def)

lemma lookups_loop_later:
  "\<forall>a \<in> set as. a \<noteq> 0 \<Longrightarrow>
   lookups (snd (get_package_info_loop net nm as tr)) = lookups tr"
proof (induction as arbitrary: tr)
  case Nil
  then show ?case by simp
next
  case (Cons a as)
  then have a: "a \<noteq> 0" and rest: "\<forall>a \<in> set as. a \<noteq> 0" by simp_all
  have r: "lookups (tr @ [Request nm a]) = lookups tr"
    using a by (simp add: lookups_def)
  have b: "lookups (tr @ [Request nm a, BackoffSleep d]) = lookups tr" for d
    using a by (simp add: lookups_def)
  show ?case
    using Cons.IH [OF rest] r b
    by (auto simp: Let_def split: http_outcome.splits sum.splits)
qed

lemma lookups_get_package_info: "lookups (snd (get_package_info net nm)) = [nm]"
proof -
  have u: "[0..<MAX_RETRIES] = 0 # [1..<MAX_RETRIES]"
    by (simp add: MAX_RETRIES_def upt_rec)
  have later: "\<forall>a \<in> set [1..<MAX_RETRIES]. a \<noteq> 0" by simp
  have r: "lookups [Request nm 0] = [nm]" by (simp add: lookups_def)
  have b: "lookups [Request nm 0, BackoffSleep d] = [nm]" for d
    by (simp add: lookups_def)
  show ?thesis
    unfolding get_package_info_def u
    using lookups_loop_later [OF later, of net nm] r b
    by (auto simp: Let_def split: http_outcome.splits sum.splits)
qed

lemma check_single_lookups:
  "lookups (snd (check_single_package net pkg)) = (if truthy (name pkg) then [name pkg] else [])"
proof (cases "truthy (name pkg)")
  case False
  then show ?thesis by (simp add: check_single_package_def lookups_def)
next
  case True
  obtain r tr where g: "get_package_info net (name pkg) = (r, tr)" by (cases "get_package_info net (name pkg)")
  with lookups_get_package_info [of net "name pkg"] have "lookups tr = [name pkg]" by simp
  then have "lookups (RateLimitSleep # tr) = [name pkg]" by (simp add: lookups_def)
  with True g show ?thesis
    by (cases r) (simp_all add: check_single_package_def Let_def)
qed

lemma check_single_result:
  "(case fst (check_single_package net pkg) of None \<Rightarrow> [] | Some c \<Rightarrow> [package.truncate c])
     = (if truthy (name pkg) then [pkg] else [])"
proof (cases "truthy (name pkg)")
  case False
  then show ?thesis by (simp add: check_single_package_def)
next
  case True
  obtain r tr where g: "get_package_info net (name pkg) = (r, tr)" by (cases "get_package_info net (name pkg)")
  with True show ?thesis
    by (cases r) (simp_all add: check_single_package_def Let_def package.truncate_def package.extend_def)
qed

lemma tasks_lookups:
  "lookups (concat (map snd (map (\<lambda>(i, pkg). check_single_package (net i) pkg) (py_enumerate k pkgs))))
     = map name (filter (\<lambda>p. truthy (name p)) pkgs)"
proof (induction pkgs arbitrary: k)
  case Nil
  then show ?case by (simp add: lookups_def)
next
  case (Cons p pkgs)
  then show ?case by (simp add: lookups_append check_single_lookups)
qed

lemma tasks_results:
  "map package.truncate
     (concat (map (\<lambda>r. case fst r of None \<Rightarrow> [] | Some c \<Rightarrow> [c])
        (map (\<lambda>(i, pkg). check_single_package (net i) pkg) (py_enumerate k pkgs))))
     = filter (\<lambda>p. truthy (name p)) pkgs"
proof (induction pkgs arbitrary: k)
  case Nil
  then show ?case by simp
next
  case (Cons p pkgs)
  have "map package.truncate (case fst (check_single_package (net k) p) of None \<Rightarrow> [] | Some c \<Rightarrow> [c])
      = (if truthy (name p) then [p] else [])"
    using check_single_result [of "net k" p] by (auto split: option.splits if_splits)
  with Cons.IH [of "Suc k"] show ?case by simp
qed

text \<open>
  Claim C3, as amended. The registry verifier operates only on records whose package
  manager is npm, and it does not deduplicate them by name: it starts one lookup for
  every npm record with a non-empty name, in the order of the input, so that a name
  shared by several records is looked up once for each of them; the records returned
  are these input records, in the same order, each with the result of the check of
  its own task.
\<close>

theorem one_lookup_per_npm_record:
  "lookups (snd (check_packages net packages)) = map name (filter npm_record packages)
   \<and> map package.truncate (fst (check_packages net packages)) = filter npm_record packages
   \<and> fst (check_packages net packages)
       = concat (map (\<lambda>(i, pkg). case fst (check_single_package (net i) pkg) of
                                     None \<Rightarrow> [] | Some c \<Rightarrow> [c])
                   (py_enumerate 0 (filter (\<lambda>pkg. package_manager pkg = ''npm'') packages)))"
proof -
  let ?npm = "filter (\<lambda>pkg. package_manager pkg = ''npm'') packages"
  have f: "filter (\<lambda>p. truthy (name p)) ?npm = filter npm_record packages"
    by (simp add: npm_record_def [abs_def] conj_commute)
  have own: "fst (check_packages net packages)
       = concat (map (\<lambda>(i, pkg). case fst (check_single_package (net i) pkg) of
                                     None \<Rightarrow> [] | Some c \<Rightarrow> [c])
                   (py_enumerate 0 ?npm))"
    by (cases "?npm = []") (simp_all add: check_packages_def Let_def comp_def case_prod_unfold)
  show ?thesis
  proof (cases "?npm = []")
    case True
    with f have "filter npm_record packages = []" by simp
    with True own show ?thesis by (simp add: check_packages_def lookups_def)
  next
    case False
    have "lookups (snd (check_packages net packages)) = map name (filter npm_record packages)"
      using False tasks_lookups [of net 0 ?npm] f by (simp add: check_packages_def Let_def)
    moreover have "map package.truncate (fst (check_packages net packages))
        = filter npm_record packages"
      using False tasks_results [of net 0 ?npm] f by (simp add: check_packages_def Let_def)
    ultimately show ?thesis using own by blast
  qed
qed

theorem one_lookup_per_npm_record_witness:
  "lookups (snd (check_packages (\<lambda>i a. Response 404 (Inl JSONDecodeError))
                   [example_package, example_package]))
     = [JString ''left-pad'', JString ''left-pad'']"
proof -
  have "map name (filter npm_record [example_package, example_package])
      = [JString ''left-pad'', JString ''left-pad'']"
    by code_simp
  with one_lookup_per_npm_record
         [of "\<lambda>i a. Response 404 (Inl JSONDecodeError)" "[example_package, example_package]"]
  show ?thesis by simp
qed

text \<open>
  Claim C3 as stated fails: for two npm records of the same name the verifier issues
  two lookups of that name, not one.
\<close>

theorem duplicate_name_looked_up_twice:
  "lookups (snd (check_packages (\<lambda>i a. Response 200 (Inr (JObject [])))
                   [example_package, example_package]))
     = [JString ''left-pad'', JString ''left-pad'']"
  by code_simp

section \<open>Transport failures are retried, responses are not\<close>

lemma get_package_info_answered:
  assumes "\<forall>a<k. attempt_fails nm (net a)" "k < MAX_RETRIES" "\<not> attempt_fails nm (net k)"
  shows "get_package_info net nm
           = get_package_info_loop net nm (k # [Suc k..<MAX_RETRIES]) (retry_trace nm k)"
proof -
  from assms(2) have split: "[0..<MAX_RETRIES] = [0..<k] @ k # [Suc k..<MAX_RETRIES]"
    by (simp add: upt_split)
  from assms(1) have f: "\<forall>a \<in> set [0..<k]. attempt_fails nm (net a)" by simp
  from assms(2) have kle: "k \<le> MAX_RETRIES - 1" by linarith
  show ?thesis
    unfolding get_package_info_def split loop_fails [OF f] retry_trace_alt [OF kle]
    by simp
qed

lemma get_package_info_exhausted:
  assumes "\<forall>a<MAX_RETRIES. attempt_fails nm (net a)"
  shows "get_package_info net nm
           = (None, retry_trace nm (MAX_RETRIES - 1) @ [Request nm (MAX_RETRIES - 1)])"
proof -
  have split: "[0..<MAX_RETRIES] = [0..<MAX_RETRIES - 1] @ [MAX_RETRIES - 1] @ []"
    by (simp add: MAX_RETRIES_def upt_rec)
  from assms have f: "\<forall>a \<in> set ([0..<MAX_RETRIES - 1] @ [MAX_RETRIES - 1]). attempt_fails nm (net a)"
    by (auto simp: MAX_RETRIES_def)
  have "get_package_info net nm =
      get_package_info_loop net nm (([0..<MAX_RETRIES - 1] @ [MAX_RETRIES - 1]) @ []) []"
    unfolding get_package_info_def using split by simp
  also have "\<dots> = (None, retry_trace nm (MAX_RETRIES - 1) @ [Request nm (MAX_RETRIES - 1)])"
    unfolding loop_fails [OF f]
    using retry_trace_alt [of "MAX_RETRIES - 1" nm] by simp
  finally show ?thesis .
qed

lemma failed_attempts_exist:
  "\<exists>k\<le>MAX_RETRIES. (\<forall>a<k. attempt_fails nm (net a))
       \<and> (k < MAX_RETRIES \<longrightarrow> \<not> attempt_fails nm (net k))"
proof -
  let ?P = "\<lambda>a. attempt_fails nm (net a)"
  let ?k = "length (takeWhile ?P [0..<MAX_RETRIES])"
  have le: "?k \<le> MAX_RETRIES"
    using length_takeWhile_le [of ?P "[0..<MAX_RETRIES]"] by simp
  have before: "\<forall>a<?k. ?P a"
  proof (intro allI impI)
    fix a assume a: "a < ?k"
    then have "?P ([0..<MAX_RETRIES] ! a)"
      using nth_mem [of a "takeWhile ?P [0..<MAX_RETRIES]"] takeWhile_nth [of a ?P "[0..<MAX_RETRIES]"]
        set_takeWhileD [of _ ?P "[0..<MAX_RETRIES]"]
      by metis
    moreover from a le have "[0..<MAX_RETRIES] ! a = a" by simp
    ultimately show "?P a" by simp
  qed
  have at: "?k < MAX_RETRIES \<longrightarrow> \<not> ?P ?k"
  proof
    assume k: "?k < MAX_RETRIES"
    then have "\<not> ?P ([0..<MAX_RETRIES] ! ?k)"
      using nth_length_takeWhile [of ?P "[0..<MAX_RETRIES]"] by simp
    with k show "\<not> ?P ?k" by simp
  qed
  from le before at show ?thesis by blast
qed

text \<open>
  Claim C1, as amended. For every registry lookup of an npm package name, a failed
  attempt (the request raises an exception, such as a transport failure or a timeout,
  or the body of a response of status 200 cannot be read) is retried within the fixed
  budget of MAX_RETRIES = 3 attempts with exponential backoff: after every failed
  attempt but the last the lookup sleeps RETRY_DELAY * BACKOFF_FACTOR ^ attempt seconds
  and then makes the next attempt. Every lookup has a number k of failed attempts, at
  most 3, before its first attempt that does not fail; that attempt ends the lookup,
  whose events are the k failed requests with their sleeps and the request of
  attempt k, and no more: a response whose status is not 200 is not retried. After
  three failed attempts the lookup ends with its third request. A response of status
  200 whose body is read, after any number of failed attempts below 3, classifies the
  name as found, with the dictionary read from the body; a 404 classifies it as
  unclaimed.
\<close>

theorem lookup_retries_every_failure:
  "(\<exists>k\<le>MAX_RETRIES. (\<forall>a<k. attempt_fails nm (net a))
        \<and> (k < MAX_RETRIES \<longrightarrow> \<not> attempt_fails nm (net k)))
   \<and> (\<forall>k. (\<forall>a<k. attempt_fails nm (net a)) \<longrightarrow>
         (k < MAX_RETRIES \<and> \<not> attempt_fails nm (net k)
            \<longrightarrow> snd (get_package_info net nm) = retry_trace nm k @ [Request nm k])
       \<and> (k = MAX_RETRIES
            \<longrightarrow> snd (get_package_info net nm)
                = retry_trace nm (MAX_RETRIES - 1) @ [Request nm (MAX_RETRIES - 1)])
       \<and> (k < MAX_RETRIES \<and> (\<exists>body. net k = Response 404 body)
              \<and> nm = name pkg \<and> truthy (name pkg)
            \<longrightarrow> (\<exists>c. fst (check_single_package net pkg) = Some c
                     \<and> npm_status c = ''not_found'' \<and> is_unclaimed c))
       \<and> (k < MAX_RETRIES \<and> (\<exists>body. net k = Response 200 body
                                  \<and> and_then body (package_info_of nm) = Inr info)
              \<and> nm = name pkg \<and> truthy (name pkg)
            \<longrightarrow> (\<exists>c. fst (check_single_package net pkg) = Some c
                     \<and> npm_status c = ''found'' \<and> \<not> is_unclaimed c
                     \<and> package_info c = Some info)))"
proof (intro conjI allI impI)
  show "\<exists>k\<le>MAX_RETRIES. (\<forall>a<k. attempt_fails nm (net a))
        \<and> (k < MAX_RETRIES \<longrightarrow> \<not> attempt_fails nm (net k))"
    by (rule failed_attempts_exist)
next
  fix k
  assume f: "\<forall>a<k. attempt_fails nm (net a)"
    and a: "k < MAX_RETRIES \<and> \<not> attempt_fails nm (net k)"
  then show "snd (get_package_info net nm) = retry_trace nm k @ [Request nm k]"
    using get_package_info_answered [of k nm net] loop_answer(1) [of nm net k] by simp
next
  fix k
  assume "\<forall>a<k. attempt_fails nm (net a)" "k = MAX_RETRIES"
  then show "snd (get_package_info net nm)
      = retry_trace nm (MAX_RETRIES - 1) @ [Request nm (MAX_RETRIES - 1)]"
    using get_package_info_exhausted [of nm net] by simp
next
  fix k
  assume f: "\<forall>a<k. attempt_fails nm (net a)"
    and a: "k < MAX_RETRIES \<and> (\<exists>body. net k = Response 404 body)
              \<and> nm = name pkg \<and> truthy (name pkg)"
  then obtain body where r: "net k = Response 404 body" by blast
  then have nf: "\<not> attempt_fails nm (net k)" by (simp add: attempt_fails_def)
  from a have k: "k < MAX_RETRIES" and n: "nm = name pkg" by simp_all
  have "fst (get_package_info net nm) = None"
    using get_package_info_answered [OF f k nf] loop_answer(2) [of nm net k body, OF nf r] by simp
  then obtain tr where "get_package_info net (name pkg) = (None, tr)"
    using n by (cases "get_package_info net (name pkg)") auto
  with a show "\<exists>c. fst (check_single_package net pkg) = Some c
                     \<and> npm_status c = ''not_found'' \<and> is_unclaimed c"
    by (simp add: check_single_package_def Let_def package.extend_def checked_package.fields_def)
next
  fix k
  assume f: "\<forall>a<k. attempt_fails nm (net a)"
    and a: "k < MAX_RETRIES \<and> (\<exists>body. net k = Response 200 body
                                  \<and> and_then body (package_info_of nm) = Inr info)
              \<and> nm = name pkg \<and> truthy (name pkg)"
  then obtain body where r: "net k = Response 200 body"
    and i: "and_then body (package_info_of nm) = Inr info" by blast
  then have nf: "\<not> attempt_fails nm (net k)" by (simp add: attempt_fails_def)
  from a have k: "k < MAX_RETRIES" and n: "nm = name pkg" by simp_all
  have "fst (get_package_info net nm) = Some info"
    using get_package_info_answered [OF f k nf] loop_answer(3) [of nm net k body info, OF nf r i] by simp
  then obtain tr where "get_package_info net (name pkg) = (Some info, tr)"
    using n by (cases "get_package_info net (name pkg)") auto
  with a show "\<exists>c. fst (check_single_package net pkg) = Some c
                     \<and> npm_status c = ''found'' \<and> \<not> is_unclaimed c
                     \<and> package_info c = Some info"
    by (simp add: check_single_package_def Let_def package.extend_def checked_package.fields_def)
qed

theorem lookup_retries_every_failure_witness:
  "snd (get_package_info flaky_then_200 (JString ''left-pad''))
     = [Request (JString ''left-pad'') 0, BackoffSleep 1, Request (JString ''left-pad'') 1]
   \<and> snd (get_package_info flaky_then_503 (JString ''left-pad''))
     = [Request (JString ''left-pad'') 0, BackoffSleep 1, Request (JString ''left-pad'') 1]
   \<and> snd (get_package_info (\<lambda>attempt. Raises TimeoutError) (JString ''left-pad''))
     = [Request (JString ''left-pad'') 0, BackoffSleep 1, Request (JString ''left-pad'') 1,
        BackoffSleep 2, Request (JString ''left-pad'') 2]"
proof -
  let ?nm = "JString ''left-pad''"
  have t: "retry_trace ?nm 1 @ [Request ?nm 1]
      = [Request ?nm 0, BackoffSleep 1, Request ?nm 1]"
    by (simp add: retry_trace_def RETRY_DELAY_def)
  have t3: "retry_trace ?nm (MAX_RETRIES - 1) @ [Request ?nm (MAX_RETRIES - 1)]
      = [Request ?nm 0, BackoffSleep 1, Request ?nm 1, BackoffSleep 2, Request ?nm 2]"
    by code_simp
  have k: "(1::nat) < MAX_RETRIES" by (simp add: MAX_RETRIES_def)
  have h2: "\<forall>a<1. attempt_fails ?nm (flaky_then_200 a)"
    by (simp add: flaky_then_200_def attempt_fails_def)
  have r2: "\<not> attempt_fails ?nm (flaky_then_200 1)" by code_simp
  have h5: "\<forall>a<1. attempt_fails ?nm (flaky_then_503 a)"
    by (simp add: flaky_then_503_def attempt_fails_def)
  have r5: "\<not> attempt_fails ?nm (flaky_then_503 1)" by code_simp
  have h0: "\<forall>a<MAX_RETRIES. attempt_fails ?nm (Raises TimeoutError)"
    by (simp add: attempt_fails_def)
  from lookup_retries_every_failure [of ?nm flaky_then_200] h2 k r2
  have a: "snd (get_package_info flaky_then_200 ?nm) = retry_trace ?nm 1 @ [Request ?nm 1]"
    by blast
  from lookup_retries_every_failure [of ?nm flaky_then_503] h5 k r5
  have b: "snd (get_package_info flaky_then_503 ?nm) = retry_trace ?nm 1 @ [Request ?nm 1]"
    by blast
  from lookup_retries_every_failure [of ?nm "\<lambda>attempt. Raises TimeoutError"] h0
  have c: "snd (get_package_info (\<lambda>attempt. Raises TimeoutError) ?nm)
      = retry_trace ?nm (MAX_RETRIES - 1) @ [Request ?nm (MAX_RETRIES - 1)]"
    by blast
  from a t have a': "snd (get_package_info flaky_then_200 ?nm)
      = [Request ?nm 0, BackoffSleep 1, Request ?nm 1]" by (rule trans)
  from b t have b': "snd (get_package_info flaky_then_503 ?nm)
      = [Request ?nm 0, BackoffSleep 1, Request ?nm 1]" by (rule trans)
  from c t3 have c': "snd (get_package_info (\<lambda>attempt. Raises TimeoutError) ?nm)
      = [Request ?nm 0, BackoffSleep 1, Request ?nm 1, BackoffSleep 2, Request ?nm 2]"
    by (rule trans)
  from a' b' c' show ?thesis by blast
qed

text \<open>
  Claim C1 as stated fails: when the registry answers 500, the lookup makes a single
  request, without retry, and the record is returned with the status not_found and
  marked unclaimed, with no error status and no error detail.
\<close>

theorem status_500_is_unclaimed_without_retry:
  "check_single_package (\<lambda>attempt. Response 500 (Inl JSONDecodeError)) example_package
     = (Some \<lparr>name = JString ''left-pad'', version = JString ''^1.3.0'', type = ''dependency'',
              category = ''dependencies'', package_manager = ''npm'',
              file_path = ''app/package.json'', source = ''package.json'',
              npm_status = ''not_found'', is_unclaimed = True, is_vulnerable = False,
              vulnerabilities = [], package_info = None\<rparr>,
        [RateLimitSleep, Request (JString ''left-pad'') 0])"
  by code_simp

section \<open>The semaphore bounds the lookups in flight\<close>

lemma in_flight_update_enter:
  "i < length ps \<Longrightarrow> ps ! i = Waiting \<Longrightarrow>
   length (filter (\<lambda>p. p = InFlight) (ps[i := InFlight])) = Suc (length (filter (\<lambda>p. p = InFlight) ps))"
proof (induction ps arbitrary: i)
  case Nil
  then show ?case by simp
next
  case (Cons p ps)
  then show ?case by (cases i) auto
qed

lemma in_flight_update_leave:
  "i < length ps \<Longrightarrow> ps ! i = InFlight \<Longrightarrow>
   Suc (length (filter (\<lambda>p. p = InFlight) (ps[i := Done]))) = length (filter (\<lambda>p. p = InFlight) ps)"
proof (induction ps arbitrary: i)
  case Nil
  then show ?case by simp
next
  case (Cons p ps)
  then show ?case by (cases i) auto
qed

lemma sched_step_invariant:
  "sched_step s ev = Some s' \<Longrightarrow> sem_value s + in_flight s = n \<Longrightarrow>
   sem_value s' + in_flight s' = n"
proof (cases ev)
  case (Enter i)
  assume "sched_step s ev = Some s'" "sem_value s + in_flight s = n"
  with Enter show ?thesis
    using in_flight_update_enter [of i "phases s"]
    by (auto simp: in_flight_def split: if_splits)
next
  case (Leave i)
  assume "sched_step s ev = Some s'" "sem_value s + in_flight s = n"
  with Leave show ?thesis
    using in_flight_update_leave [of i "phases s"]
    by (auto simp: in_flight_def split: if_splits)
qed

lemma sched_run_invariant:
  "sched_run s evs = Some s' \<Longrightarrow> sem_value s + in_flight s = n \<Longrightarrow>
   sem_value s' + in_flight s' = n"
proof (induction evs arbitrary: s)
  case Nil
  then show ?case by simp
next
  case (Cons ev evs)
  then show ?case
    by (auto split: option.splits dest: sched_step_invariant)
qed

lemma sched_init_invariant:
  "sem_value (sched_init n) + in_flight (sched_init n) = MAX_CONCURRENT_NPM_CHECKS"
  by (simp add: sched_init_def in_flight_def)

text \<open>
  Claim C8. During registry verification at most N lookups are in flight at any time,
  where N is MAX_CONCURRENT_NPM_CHECKS = 10: in every state that the tasks can reach,
  whatever their number and the order of their steps, at most ten tasks are inside
  the block guarded by the semaphore, and the free permits are ten less the tasks
  inside; when ten are inside, no further task can enter before one of them has
  left. This holds in particular for a hundred tasks.
\<close>

theorem at_most_ten_in_flight:
  assumes "sched_run (sched_init n) evs = Some s"
  shows "in_flight s \<le> MAX_CONCURRENT_NPM_CHECKS
       \<and> MAX_CONCURRENT_NPM_CHECKS = 10
       \<and> sem_value s = MAX_CONCURRENT_NPM_CHECKS - in_flight s
       \<and> (in_flight s = MAX_CONCURRENT_NPM_CHECKS \<longrightarrow> (\<forall>i. sched_step s (Enter i) = None))"
proof -
  have inv: "sem_value s + in_flight s = MAX_CONCURRENT_NPM_CHECKS"
    using sched_run_invariant [OF assms sched_init_invariant] .
  then have "in_flight s \<le> MAX_CONCURRENT_NPM_CHECKS" by linarith
  moreover have "MAX_CONCURRENT_NPM_CHECKS = 10" by (rule MAX_CONCURRENT_NPM_CHECKS_def)
  moreover from inv have "sem_value s = MAX_CONCURRENT_NPM_CHECKS - in_flight s" by linarith
  moreover from inv have "in_flight s = MAX_CONCURRENT_NPM_CHECKS \<longrightarrow> (\<forall>i. sched_step s (Enter i) = None)"
    by auto
  ultimately show ?thesis by blast
qed

lemma ten_admitted_run: "sched_run (sched_init 100) (map Enter [0..<10]) = Some ten_admitted"
  by code_simp

theorem at_most_ten_in_flight_witness:
  "in_flight ten_admitted = 10 \<and> sched_step ten_admitted (Enter 10) = None"
proof -
  have "in_flight ten_admitted = 10" by code_simp
  with at_most_ten_in_flight [OF ten_admitted_run] show ?thesis by simp
qed

section \<open>The package.json of the example\<close>

text \<open>
  Claim C6. The npm parser applied to the content
  {"name":"x","version":"1.0.0","dependencies":{"a":"^1.0.0","b":"2.0.0"}}, which the
  JSON library decodes to the object it denotes, returns exactly three records: the
  package itself (name x, version 1.0.0) and two dependencies of category
  "dependencies", a with ^1.0.0 and b with 2.0.0, the version ranges kept as written.
\<close>

theorem npm_example_three_records:
  assumes "json_loads lib example_package_json = Inr example_package_data"
  shows "extract_npm_packages lib example_package_json fp =
     Inr [\<lparr>name = JString ''x'', version = JString ''1.0.0'', type = ''package'',
            category = ''main'', package_manager = ''npm'', file_path = fp,
            source = ''package.json''\<rparr>,
          \<lparr>name = JString ''a'', version = JString ''^1.0.0'', type = ''dependency'',
            category = ''dependencies'', package_manager = ''npm'', file_path = fp,
            source = ''package.json''\<rparr>,
          \<lparr>name = JString ''b'', version = JString ''2.0.0'', type = ''dependency'',
            category = ''dependencies'', package_manager = ''npm'', file_path = fp,
            source = ''package.json''\<rparr>]"
proof -
  have m: "main_block ''npm'' ''package.json'' example_package_data fp =
     Inr [\<lparr>name = JString ''x'', version = JString ''1.0.0'', type = ''package'',
            category = ''main'', package_manager = ''npm'', file_path = fp,
            source = ''package.json''\<rparr>]"
    by (simp add: main_block_def example_package_data_def and_then_def)
  have d: "deps_loop ''npm'' ''package.json'' example_package_data fp
             [''dependencies'', ''devDependencies'', ''peerDependencies'', ''optionalDependencies'']
     = Inr [\<lparr>name = JString ''a'', version = JString ''^1.0.0'', type = ''dependency'',
            category = ''dependencies'', package_manager = ''npm'', file_path = fp,
            source = ''package.json''\<rparr>,
          \<lparr>name = JString ''b'', version = JString ''2.0.0'', type = ''dependency'',
            category = ''dependencies'', package_manager = ''npm'', file_path = fp,
            source = ''package.json''\<rparr>]"
    by (simp add: deps_block_def example_package_data_def and_then_def)
  have s: "scripts_block lib example_package_data fp = Inr []"
    by (simp add: scripts_block_def example_package_data_def and_then_def)
  show ?thesis
    unfolding extract_npm_packages_def assms
    by (simp only: sum.case m d s and_then_def append_Cons append_Nil)
qed

theorem npm_example_three_records_witness:
  "extract_npm_packages example_lib example_package_json ''package.json'' =
     Inr [\<lparr>name = JString ''x'', version = JString ''1.0.0'', type = ''package'',
            category = ''main'', package_manager = ''npm'', file_path = ''package.json'',
            source = ''package.json''\<rparr>,
          \<lparr>name = JString ''a'', version = JString ''^1.0.0'', type = ''dependency'',
            category = ''dependencies'', package_manager = ''npm'', file_path = ''package.json'',
            source = ''package.json''\<rparr>,
          \<lparr>name = JString ''b'', version = JString ''2.0.0'', type = ''dependency'',
            category = ''dependencies'', package_manager = ''npm'', file_path = ''package.json'',
            source = ''package.json''\<rparr>]"
proof -
  have h: "json_loads example_lib example_package_json = Inr example_package_data"
    by (simp add: example_lib_def)
  show ?thesis by (rule npm_example_three_records [OF h])
qed

section \<open>Quoted names in Cargo.toml\<close>

text \<open>
  Claim C9 fails on the code for the name. On the dependency line "serde" = "1.0" the
  pyproject.toml scanner strips the quotes from the name and the version, and the
  Cargo.toml scanner strips them from the version only: its record keeps the name
  with its quotes.
\<close>

theorem cargo_keeps_quotes_of_name:
  "map (\<lambda>p. (name p, version p)) (extract_cargo_packages example_cargo_toml ''Cargo.toml'')
     = [(JString (dq ''serde''), JString ''1.0'')]
   \<and> map (\<lambda>p. (name p, version p)) (extract_pyproject_toml example_pyproject_toml ''pyproject.toml'')
     = [(JString ''serde'', JString ''1.0'')]"
  by code_simp

section \<open>Failures of one manifest stay local\<close>

lemma directory_loop_concat:
  "extracted_packages (directory_loop lib fs files st)
     = extracted_packages st @ concat (map (extract_packages_from_file lib fs) files)"
  by (induction files arbitrary: st) (simp_all add: Let_def)

lemma extract_packages_from_file_error:
  "identify_package_type fp = Some pt \<Longrightarrow> read_text fs fp = Inr content \<Longrightarrow>
   dispatch lib pt content fp = Inl e \<Longrightarrow> extract_packages_from_file lib fs fp = []"
  by (simp add: extract_packages_from_file_def)

lemma extract_packages_from_file_empty_result:
  "identify_package_type fp = Some pt \<Longrightarrow> read_text fs fp = Inr content \<Longrightarrow>
   dispatch lib pt content fp = Inr [] \<Longrightarrow> extract_packages_from_file lib fs fp = []"
  by (simp add: extract_packages_from_file_def)

lemma dispatch_json_error:
  "pt = ''npm'' \<or> pt = ''composer'' \<Longrightarrow> json_loads lib content = Inl JSONDecodeError \<Longrightarrow>
   dispatch lib pt content fp = Inr []"
  by (auto simp: dispatch_def extract_npm_packages_def extract_composer_packages_def)

lemma dispatch_xml_error:
  "pt = ''maven'' \<or> pt = ''nuget'' \<Longrightarrow> ET_fromstring lib content = Inl ParseError \<Longrightarrow>
   dispatch lib pt content fp = Inr []"
  by (auto simp: dispatch_def extract_maven_packages_def extract_nuget_packages_def
      extract_packages_config_def extract_csproj_packages_def)

text \<open>
  Claim C7. The extraction of a manifest file never fails: whenever the parser chosen
  for the file raises, and in particular when the JSON of a package.json or
  composer.json or the XML of a pom.xml or NuGet file is malformed, or when the file
  cannot be read, the file contributes the empty list. The result for a directory is
  the concatenation of the results of its files, so a malformed manifest neither
  removes nor prevents the records of the other files.
\<close>

theorem manifest_failures_stay_local:
  "(identify_package_type fp = Some pt \<and> read_text fs fp = Inr content
      \<and> (\<exists>e. dispatch lib pt content fp = Inl e)
      \<longrightarrow> extract_packages_from_file lib fs fp = [])
   \<and> ((identify_package_type fp = Some ''npm'' \<or> identify_package_type fp = Some ''composer'')
      \<and> read_text fs fp = Inr content \<and> json_loads lib content = Inl JSONDecodeError
      \<longrightarrow> extract_packages_from_file lib fs fp = [])
   \<and> ((identify_package_type fp = Some ''maven'' \<or> identify_package_type fp = Some ''nuget'')
      \<and> read_text fs fp = Inr content \<and> ET_fromstring lib content = Inl ParseError
      \<longrightarrow> extract_packages_from_file lib fs fp = [])
   \<and> ((\<exists>e. read_text fs fp = Inl e) \<longrightarrow> extract_packages_from_file lib fs fp = [])
   \<and> fst (extract_packages_from_directory lib fs directory)
       = concat (map (extract_packages_from_file lib fs) (find_package_files fs directory))"
proof (intro conjI impI)
  assume "identify_package_type fp = Some pt \<and> read_text fs fp = Inr content
      \<and> (\<exists>e. dispatch lib pt content fp = Inl e)"
  then show "extract_packages_from_file lib fs fp = []"
    using extract_packages_from_file_error by blast
next
  assume a: "(identify_package_type fp = Some ''npm'' \<or> identify_package_type fp = Some ''composer'')
      \<and> read_text fs fp = Inr content \<and> json_loads lib content = Inl JSONDecodeError"
  then obtain t where t: "identify_package_type fp = Some t" "t = ''npm'' \<or> t = ''composer''"
    by blast
  from dispatch_json_error [OF t(2)] a have "dispatch lib t content fp = Inr []" by blast
  with t(1) a show "extract_packages_from_file lib fs fp = []"
    using extract_packages_from_file_empty_result by blast
next
  assume a: "(identify_package_type fp = Some ''maven'' \<or> identify_package_type fp = Some ''nuget'')
      \<and> read_text fs fp = Inr content \<and> ET_fromstring lib content = Inl ParseError"
  then obtain t where t: "identify_package_type fp = Some t" "t = ''maven'' \<or> t = ''nuget''"
    by blast
  from dispatch_xml_error [OF t(2)] a have "dispatch lib t content fp = Inr []" by blast
  with t(1) a show "extract_packages_from_file lib fs fp = []"
    using extract_packages_from_file_empty_result by blast
next
  assume "\<exists>e. read_text fs fp = Inl e"
  then show "extract_packages_from_file lib fs fp = []"
    by (auto simp: extract_packages_from_file_def split: option.splits)
next
  show "fst (extract_packages_from_directory lib fs directory)
       = concat (map (extract_packages_from_file lib fs) (find_package_files fs directory))"
    by (simp add: extract_packages_from_directory_def Let_def directory_loop_concat)
qed

theorem manifest_failures_stay_local_witness:
  "extract_packages_from_file example_lib example_fs ''repo/package.json'' = []
   \<and> map name (fst (extract_packages_from_directory example_lib example_fs ''repo''))
       = [JString ''flask'']"
proof -
  have i: "identify_package_type ''repo/package.json'' = Some ''npm''" by code_simp
  have r: "read_text example_fs ''repo/package.json'' = Inr ''{''"
    by (simp add: example_fs_def)
  have j: "json_loads example_lib ''{'' = Inl JSONDecodeError" by code_simp
  have f: "find_package_files example_fs ''repo'' = [''repo/package.json'', ''repo/requirements.txt'']"
    by code_simp
  have q: "map name (extract_packages_from_file example_lib example_fs ''repo/requirements.txt'')
      = [JString ''flask'']"
    by code_simp
  from manifest_failures_stay_local
         [of "''repo/package.json''" "''npm''" example_fs "''{''" example_lib "''repo''"]
  have p: "extract_packages_from_file example_lib example_fs ''repo/package.json'' = []"
    and d: "fst (extract_packages_from_directory example_lib example_fs ''repo'')
       = concat (map (extract_packages_from_file example_lib example_fs)
                   (find_package_files example_fs ''repo''))"
    using i r j by blast+
  from d show ?thesis unfolding f by (simp add: p q)
qed

end
